theory Spec2Isabelle
  imports Complex_Main
begin

section \<open>Values\<close>

text \<open>
  The two route handlers (\<^verbatim>\<open>src/app/api/generate-ad/route.ts\<close> and
  \<^verbatim>\<open>src/app/api/inspect-ad/route.ts\<close>) exchange JSON values with the caller, with the
  key-value store and with the language-model provider.

  A JavaScript string is modelled as a \<^typ>\<open>string\<close>, one character for one code unit, so
  that \<^const>\<open>length\<close> is the \<^verbatim>\<open>.length\<close> that the schema bounds compare against (the model
  covers text whose code units are below 256).

  \<open>JObj\<close> lists the own properties of an object in their order; a parsed object has each
  key once. \<open>JDate\<close> stands for the text that \<^verbatim>\<open>new Date(ms).toISOString()\<close> renders, kept
  as the millisecond timestamp it renders.
\<close>

datatype json =
    JNull
  | JBool bool
  | JNum rat
  | JStr string
  | JArr "json list"
  | JObj "(string \<times> json) list"
  | JDate nat

text \<open>JavaScript truthiness, as used by \<^verbatim>\<open>if (cached)\<close> and \<^verbatim>\<open>!parsed.ads\<close>.\<close>

fun truthy :: "json \<Rightarrow> bool" where
  "truthy JNull = False"
| "truthy (JBool b) = b"
| "truthy (JNum n) = (n \<noteq> 0)"
| "truthy (JStr s) = (s \<noteq> [])"
| "truthy (JArr xs) = True"
| "truthy (JObj ps) = True"
| "truthy (JDate t) = True"

text \<open>
  Property access \<^verbatim>\<open>v.name\<close> on a value that \<^verbatim>\<open>JSON.parse\<close> returned: \<open>None\<close> is
  \<^verbatim>\<open>undefined\<close>, and reading a property of \<^verbatim>\<open>null\<close> throws a TypeError.
\<close>

datatype 'a access = Throws | Value 'a

fun property :: "json \<Rightarrow> string \<Rightarrow> json option access" where
  "property JNull name = Throws"
| "property (JObj ps) name = Value (map_of ps name)"
| "property v name = Value None"

text \<open>Decimal rendering of a number inside a template string.\<close>

definition digit :: "nat \<Rightarrow> char" where
  "digit d = char_of (48 + d)"

function show_nat :: "nat \<Rightarrow> string" where
  "show_nat n = (if n < 10 then [digit n] else show_nat (n div 10) @ [digit (n mod 10)])"
  by pat_completeness auto
termination
  by (relation "measure id") auto

declare show_nat.simps [simp del]

text \<open>
  Object spread \<^verbatim>\<open>{...v}\<close>: the own enumerable properties of \<open>v\<close>. An array and a string
  spread their indices, the other primitives spread nothing.
\<close>

fun spread :: "json \<Rightarrow> (string \<times> json) list" where
  "spread (JObj ps) = ps"
| "spread (JArr xs) = zip (map show_nat [0..<length xs]) xs"
| "spread (JStr s) = zip (map show_nat [0..<length s]) (map (\<lambda>c. JStr [c]) s)"
| "spread v = []"

text \<open>
  An object literal \<^verbatim>\<open>{...v, name: x}\<close>: an existing property keeps its place and takes
  the new value, a new one is added last.
\<close>

fun assign :: "(string \<times> json) list \<Rightarrow> string \<Rightarrow> json \<Rightarrow> (string \<times> json) list" where
  "assign [] name x = [(name, x)]"
| "assign ((k, v) # ps) name x = (if k = name then (k, x) # ps else (k, v) # assign ps name x)"

text \<open>
  \<^verbatim>\<open>JSON.stringify\<close> drops a property whose value is \<^verbatim>\<open>undefined\<close>; \<open>opt\<close> builds such a
  property of a response body.
\<close>

definition opt :: "string \<Rightarrow> json option \<Rightarrow> (string \<times> json) list" where
  "opt name v = (case v of None \<Rightarrow> [] | Some x \<Rightarrow> [(name, x)])"

section \<open>Schema validation\<close>

text \<open>
  The schemas are built from \<^verbatim>\<open>z.string().min(a).max(b)\<close>, \<^verbatim>\<open>z.enum([...])\<close> and
  \<^verbatim>\<open>.optional()\<close> inside one \<^verbatim>\<open>z.object({...})\<close>. The checks of a string schema run in
  the order they were chained and every failing check reports an issue.
\<close>

datatype zod_check = Min nat | Max nat

datatype zod_type =
    ZString "zod_check list"
  | ZEnum "string list"
  | ZOptional zod_type

record zod_issue =
  path :: "string list"
  message :: string

definition typeof :: "json \<Rightarrow> string" where
  "typeof v = (case v of
      JNull \<Rightarrow> ''null'' | JBool b \<Rightarrow> ''boolean'' | JNum n \<Rightarrow> ''number'' | JStr s \<Rightarrow> ''string''
    | JArr xs \<Rightarrow> ''array'' | JObj ps \<Rightarrow> ''object'' | JDate t \<Rightarrow> ''date'')"

fun join :: "string \<Rightarrow> string list \<Rightarrow> string" where
  "join sep [] = []"
| "join sep [x] = x"
| "join sep (x # xs) = x @ sep @ join sep xs"

definition joinValues :: "string list \<Rightarrow> string" where
  "joinValues vs = join '' | '' (map (\<lambda>v. [CHR 0x27] @ v @ [CHR 0x27]) vs)"

fun check_string :: "string \<Rightarrow> zod_check \<Rightarrow> string list" where
  "check_string s (Min n) =
     (if length s < n then [''String must contain at least '' @ show_nat n @ '' character(s)'']
      else [])"
| "check_string s (Max n) =
     (if n < length s then [''String must contain at most '' @ show_nat n @ '' character(s)'']
      else [])"

text \<open>
  Parsing one property. The input \<open>None\<close> is \<^verbatim>\<open>undefined\<close> (the key is absent from the
  body); the result is the list of messages of the issues raised, or the parsed value.
\<close>

fun zod_parse :: "zod_type \<Rightarrow> json option \<Rightarrow> string list + string option" where
  "zod_parse (ZString checks) None = Inl [''Required'']"
| "zod_parse (ZString checks) (Some (JStr s)) =
     (let ms = concat (map (check_string s) checks)
      in if ms = [] then Inr (Some s) else Inl ms)"
| "zod_parse (ZString checks) (Some v) = Inl [''Expected string, received '' @ typeof v]"
| "zod_parse (ZEnum options) None = Inl [''Required'']"
| "zod_parse (ZEnum options) (Some (JStr s)) =
     (if s \<in> set options then Inr (Some s)
      else Inl [''Invalid enum value. Expected '' @ joinValues options @ '', received ''
                 @ [CHR 0x27] @ s @ [CHR 0x27]])"
| "zod_parse (ZEnum options) (Some v) =
     Inl [''Expected '' @ joinValues options @ '', received '' @ typeof v]"
| "zod_parse (ZOptional t) None = Inr None"
| "zod_parse (ZOptional t) (Some v) = zod_parse t (Some v)"

type_synonym zod_object = "(string \<times> zod_type) list"

text \<open>A validated request: the properties of the schema that are defined, in schema order.\<close>

type_synonym validated = "(string \<times> string) list"

definition issues_of :: "string \<times> (string list + string option) \<Rightarrow> zod_issue list" where
  "issues_of r = (case r of
      (k, Inl ms) \<Rightarrow> map (\<lambda>m. \<lparr>path = [k], message = m\<rparr>) ms
    | (k, Inr x) \<Rightarrow> [])"

definition output_of :: "string \<times> (string list + string option) \<Rightarrow> validated" where
  "output_of r = (case r of (k, Inr (Some s)) \<Rightarrow> [(k, s)] | _ \<Rightarrow> [])"

definition zod_object_parse :: "zod_object \<Rightarrow> json \<Rightarrow> zod_issue list + validated" where
  "zod_object_parse shape data = (case data of
      JObj ps \<Rightarrow>
        (let results = map (\<lambda>(k, t). (k, zod_parse t (map_of ps k))) shape;
             issues = concat (map issues_of results)
         in if issues = [] then Inr (concat (map output_of results)) else Inl issues)
    | v \<Rightarrow> Inl [\<lparr>path = [], message = ''Expected object, received '' @ typeof v\<rparr>])"

definition GenerateAdSchema :: zod_object where
  "GenerateAdSchema =
    [(''targetAudience'', ZString [Min 10, Max 100]),
     (''goal'', ZString [Min 10, Max 100]),
     (''uniqueSellingPoint'', ZString [Min 10, Max 200]),
     (''contextDescription'', ZString [Min 20, Max 500]),
     (''brandVoice'', ZEnum [''Professional'', ''Friendly'', ''Witty'', ''Urgent'', ''Inspirational'']),
     (''keyEmotion'', ZEnum [''FOMO'', ''Trust'', ''Excitement'', ''Curiosity'', ''Anger/Solve Pain'']),
     (''competitors'', ZOptional (ZString [Max 100])),
     (''adFormat'', ZEnum [''Single Image'', ''Carousel'', ''Video'', ''Story'']),
     (''industry'', ZEnum [''General'', ''Health'', ''Finance'', ''E-commerce'', ''SaaS'',
        ''Real Estate'', ''Other'']),
     (''preferredCTA'', ZEnum [''Shop Now'', ''Learn More'', ''Get Offer'', ''Sign Up'', ''Book Now'',
        ''Claim Discount'']),
     (''visualDirection'', ZEnum [''Lifestyle'', ''Product Close-Up'', ''Before/After'',
        ''User-Generated'', ''Infographic''])]"

definition InspectAdSchema :: zod_object where
  "InspectAdSchema =
    [(''headline'', ZString [Min 5, Max 120]),
     (''body'', ZString [Min 10, Max 500]),
     (''cta'', ZString [Min 2, Max 50]),
     (''offerDescription'', ZString [Min 10, Max 500]),
     (''websiteOrBrand'', ZOptional (ZString [Max 50])),
     (''adType'', ZEnum [''facebook'', ''instagram'', ''google-search'', ''google-display'']),
     (''industry'', ZEnum [''General'', ''Health'', ''Finance'', ''E-commerce'', ''SaaS'',
        ''Real Estate'', ''Other''])]"

section \<open>Cache keys\<close>

text \<open>
  \<^verbatim>\<open>JSON.stringify(validated)\<close> of an object whose values are all strings: the properties
  in their order, keys and values quoted and escaped.
\<close>

definition hex_digit :: "nat \<Rightarrow> char" where
  "hex_digit d = ''0123456789abcdef'' ! d"

definition escape :: "char \<Rightarrow> string" where
  "escape c = (let n = (of_char c :: nat) in
     if n = 0x22 then [CHR 0x5C, CHR 0x22]
     else if n = 0x5C then [CHR 0x5C, CHR 0x5C]
     else if n = 0x08 then [CHR 0x5C, CHR ''b'']
     else if n = 0x09 then [CHR 0x5C, CHR ''t'']
     else if n = 0x0A then [CHR 0x5C, CHR ''n'']
     else if n = 0x0C then [CHR 0x5C, CHR ''f'']
     else if n = 0x0D then [CHR 0x5C, CHR ''r'']
     else if n < 0x20 then [CHR 0x5C, CHR ''u'', CHR ''0'', CHR ''0'', hex_digit (n div 16), hex_digit (n mod 16)]
     else [c])"

definition quote :: "string \<Rightarrow> string" where
  "quote s = [CHR 0x22] @ concat (map escape s) @ [CHR 0x22]"

definition JSON_stringify :: "validated \<Rightarrow> string" where
  "JSON_stringify v = ''{'' @ join '','' (map (\<lambda>(k, s). quote k @ '':'' @ quote s) v) @ ''}''"

text \<open>\<^verbatim>\<open>Buffer.from(text)\<close>: the UTF-8 bytes of the text.\<close>

definition utf8 :: "string \<Rightarrow> string" where
  "utf8 s = concat (map (\<lambda>c. let n = (of_char c :: nat) in
     if n < 128 then [c] else [char_of (192 + n div 64), char_of (128 + n mod 64)]) s)"

text \<open>\<^verbatim>\<open>.toString('base64')\<close>: the standard alphabet, padded with \<open>=\<close>.\<close>

definition b64 :: "nat \<Rightarrow> char" where
  "b64 d = ''ABCDEFGHIJKLMNOPQRSTUVWXYZabcdefghijklmnopqrstuvwxyz0123456789+/'' ! d"

fun base64 :: "string \<Rightarrow> string" where
  "base64 [] = []"
| "base64 [a] =
     (let x = (of_char a :: nat)
      in [b64 (x div 4), b64 (x mod 4 * 16), CHR ''='', CHR ''=''])"
| "base64 [a, b] =
     (let x = (of_char a :: nat); y = (of_char b :: nat)
      in [b64 (x div 4), b64 (x mod 4 * 16 + y div 16), b64 (y mod 16 * 4), CHR ''=''])"
| "base64 (a # b # c # rest) =
     (let x = (of_char a :: nat); y = (of_char b :: nat); z = (of_char c :: nat)
      in [b64 (x div 4), b64 (x mod 4 * 16 + y div 16), b64 (y mod 16 * 4 + z div 64),
          b64 (z mod 64)] @ base64 rest)"

definition generate_cacheKey :: "validated \<Rightarrow> string" where
  "generate_cacheKey v = ''gen-ad:'' @ base64 (utf8 (JSON_stringify v))"

definition inspect_cacheKey :: "validated \<Rightarrow> string" where
  "inspect_cacheKey v = ''inspect:'' @ base64 (utf8 (JSON_stringify v))"

section \<open>The caller\<close>

record request =
  x_forwarded_for :: "string option"
  body_text :: string

text \<open>The white space that \<^verbatim>\<open>String.prototype.trim\<close> removes, among the code units below 256.\<close>

definition white_space :: "char \<Rightarrow> bool" where
  "white_space c = ((of_char c :: nat) \<in> {0x09, 0x0A, 0x0B, 0x0C, 0x0D, 0x20, 0xA0})"

definition trim :: "string \<Rightarrow> string" where
  "trim s = rev (dropWhile white_space (rev (dropWhile white_space s)))"

text \<open>
  \<^verbatim>\<open>request.headers.get('x-forwarded-for')?.split(',')[0]?.trim() || '127.0.0.1'\<close>
\<close>

definition client_ip :: "request \<Rightarrow> string" where
  "client_ip rq = (case x_forwarded_for rq of
      None \<Rightarrow> ''127.0.0.1''
    | Some v \<Rightarrow>
        (let ip = trim (takeWhile (\<lambda>c. c \<noteq> CHR '','') v)
         in if ip = [] then ''127.0.0.1'' else ip))"

section \<open>The store, the limiter and the provider\<close>

text \<open>
  \<^verbatim>\<open>kv\<close> is the client of the shared key-value store: \<^verbatim>\<open>kv.get(key)\<close> resolves to the
  value stored under the key, or to \<^verbatim>\<open>null\<close> when there is none or it has expired;
  \<^verbatim>\<open>kv.set(key, value, { ex })\<close> stores the value for \<open>ex\<close> seconds. Times are in
  milliseconds.
\<close>

type_synonym store = "string \<rightharpoonup> json \<times> nat"

definition kv_get :: "store \<Rightarrow> nat \<Rightarrow> string \<Rightarrow> json" where
  "kv_get s t k = (case s k of
      None \<Rightarrow> JNull
    | Some (v, expires) \<Rightarrow> if t < expires then v else JNull)"

definition kv_set :: "store \<Rightarrow> nat \<Rightarrow> string \<Rightarrow> json \<Rightarrow> nat \<Rightarrow> store" where
  "kv_set s t k v ex = s(k \<mapsto> (v, t + ex * 1000))"

text \<open>
  Modelled from the spec: the sliding-window limiter behind
  \<^verbatim>\<open>Ratelimit.slidingWindow(3, '86400s')\<close>, whose code is the package
  \<^verbatim>\<open>@upstash/ratelimit\<close> and is not under \<^verbatim>\<open>src/\<close>. The spec gives it as a sliding window of
  24 hours with a quota of 3 requests per key, which hands back the reset time of the
  window. The limiter keeps, for each key, the times of the requests it admitted; a
  request is admitted when fewer than 3 of them lie in the 24 hours before it, and the
  window resets when the oldest of them leaves it.
\<close>

definition window :: nat where
  "window = 86400 * 1000"

definition tokens :: nat where
  "tokens = 3"

definition in_window :: "nat \<Rightarrow> nat \<Rightarrow> bool" where
  "in_window t stamp = (t < stamp + window)"

fun oldest :: "nat list \<Rightarrow> nat" where
  "oldest [] = 0"
| "oldest [s] = s"
| "oldest (s # ss) = min s (oldest ss)"

definition slidingWindow :: "nat list \<Rightarrow> nat \<Rightarrow> bool \<times> nat \<times> nat list" where
  "slidingWindow stamps t =
     (let recent = filter (in_window t) stamps
      in if length recent < tokens then (True, oldest (t # recent) + window, t # recent)
         else (False, oldest recent + window, recent))"

text \<open>
  The state that outlives a request: the cache entries and the limiter's counters. Both
  live in the one store behind \<^verbatim>\<open>kv\<close>; the limiter's keys start with its prefix
  (\<^verbatim>\<open>adgen-ratelimit\<close>, \<^verbatim>\<open>adinsp-ratelimit\<close>) and the cache keys with \<^verbatim>\<open>gen-ad:\<close> or
  \<^verbatim>\<open>inspect:\<close>, so they are kept as two maps.
\<close>

record world =
  cache :: store
  limiter :: "string \<Rightarrow> nat list"

text \<open>
  What a library call or a \<^verbatim>\<open>throw\<close> of the handlers can throw: an Error with its
  \<^verbatim>\<open>name\<close> and \<^verbatim>\<open>message\<close>, or a value that is not an Error. The \<^verbatim>\<open>catch\<close> clause of
  the generation endpoint can also receive the ZodError of \<^verbatim>\<open>GenerateAdSchema.parse\<close>.
\<close>

datatype thrown =
    Thrown_Error string string
  | Not_Error

datatype caught =
    ZodError "zod_issue list"
  | Other thrown

text \<open>
  The provider call \<^verbatim>\<open>openai.chat.completions.create\<close> either rejects, with the message
  of its error, or resolves to a completion, of which the handlers read
  \<^verbatim>\<open>choices[0]?.message?.content\<close> and \<^verbatim>\<open>usage?.total_tokens\<close>.
\<close>

datatype completion =
    Rejects string
  | Resolves "string option" "nat option"

text \<open>
  What one request meets and does not control: the time (one instant for the whole
  request), \<^verbatim>\<open>NODE_ENV === 'development'\<close>, the \<^verbatim>\<open>stack\<close> of an error caught during the
  request, a failure of the limiter's store, failures of \<^verbatim>\<open>kv.get\<close> and \<^verbatim>\<open>kv.set\<close>, and
  the provider's answer if it is asked. The \<^verbatim>\<open>console\<close> output of the handlers is left
  out.
\<close>

record env =
  now :: nat
  development :: bool
  error_stack :: "string option"
  limit_throws :: "thrown option"
  kv_get_fails :: bool
  kv_set_fails :: bool
  provider :: completion

text \<open>The calls a handler makes to the outside, in the order it makes them.\<close>

datatype event =
    Ratelimit_Limit string
  | Request_Json
  | Kv_Get string
  | Kv_Set string json nat
  | OpenAI_Create validated

record response =
  status :: nat
  body :: json

type_synonym 'e attempt = "('e + response) \<times> world \<times> event list"

text \<open>
  \<^verbatim>\<open>await kv.get(cacheKey).catch(() => null)\<close>: a failed read gives \<^verbatim>\<open>null\<close>.
\<close>

definition cache_lookup :: "env \<Rightarrow> world \<Rightarrow> string \<Rightarrow> json" where
  "cache_lookup e w key = (if kv_get_fails e then JNull else kv_get (cache w) (now e) key)"

text \<open>
  \<^verbatim>\<open>await kv.set(cacheKey, value, { ex }).catch(e => console.warn(...))\<close>: a failed write
  leaves the store as it was and the handler goes on.
\<close>

definition cache_store :: "env \<Rightarrow> world \<Rightarrow> string \<Rightarrow> json \<Rightarrow> nat \<Rightarrow> world" where
  "cache_store e w key v ex =
     (if kv_set_fails e then w else w\<lparr>cache := kv_set (cache w) (now e) key v ex\<rparr>)"

text \<open>
  \<^verbatim>\<open>await ratelimit.limit(identifier)\<close> on a limiter built with the given prefix: it
  throws when its store fails, and otherwise decides and records. The \<^verbatim>\<open>pending\<close>
  promise that the handlers await next (the limiter's analytics) is taken to resolve.
\<close>

definition ratelimit_limit ::
  "string \<Rightarrow> env \<Rightarrow> world \<Rightarrow> string \<Rightarrow> thrown + (bool \<times> nat \<times> world)" where
  "ratelimit_limit prefix e w identifier =
     (let key = prefix @ '':'' @ identifier
      in case limit_throws e of
           Some t \<Rightarrow> Inl t
         | None \<Rightarrow>
             (case slidingWindow (limiter w key) (now e) of
                (success, reset, stamps) \<Rightarrow>
                  Inr (success, reset, w\<lparr>limiter := (limiter w)(key := stamps)\<rparr>)))"

section \<open>The generation endpoint\<close>

definition issue_json :: "zod_issue \<Rightarrow> json" where
  "issue_json i = JObj [(''path'', JStr (join ''.'' (path i))), (''message'', JStr (message i))]"

text \<open>
  The inner \<^verbatim>\<open>try\<close> around \<^verbatim>\<open>JSON.parse(content)\<close> and \<^verbatim>\<open>if (!parsed.ads) throw\<close>;
  \<open>None\<close> is its \<^verbatim>\<open>catch\<close>. \<open>JSON_parse\<close> is \<^verbatim>\<open>JSON.parse\<close>, with \<open>None\<close> for a
  SyntaxError.
\<close>

definition parse_ads :: "(string \<Rightarrow> json option) \<Rightarrow> string \<Rightarrow> json option" where
  "parse_ads JSON_parse content = (case JSON_parse content of
      None \<Rightarrow> None
    | Some parsed \<Rightarrow>
        (case property parsed ''ads'' of
           Throws \<Rightarrow> None
         | Value None \<Rightarrow> None
         | Value (Some ads) \<Rightarrow> if truthy ads then Some ads else None))"

text \<open>The handler from the cache lookup on, for a validated request.\<close>

definition generate_resolve ::
  "(string \<Rightarrow> json option) \<Rightarrow> env \<Rightarrow> world \<Rightarrow> validated \<Rightarrow> thrown attempt" where
  "generate_resolve JSON_parse e w validated =
     (let cacheKey = generate_cacheKey validated;
          cached = cache_lookup e w cacheKey
      in if truthy cached then (Inr \<lparr>status = 200, body = cached\<rparr>, w, [Kv_Get cacheKey])
         else (case provider e of
             Rejects msg \<Rightarrow>
               (Inl (Thrown_Error ''Error'' (''OpenAI request failed: '' @ msg)), w,
                [Kv_Get cacheKey, OpenAI_Create validated])
           | Resolves None usage \<Rightarrow>
               (Inl (Thrown_Error ''Error'' ''Empty response from OpenAI''), w,
                [Kv_Get cacheKey, OpenAI_Create validated])
           | Resolves (Some content) usage \<Rightarrow>
               if content = [] then
                 (Inl (Thrown_Error ''Error'' ''Empty response from OpenAI''), w,
                  [Kv_Get cacheKey, OpenAI_Create validated])
               else (case parse_ads JSON_parse content of
                   None \<Rightarrow>
                     (Inl (Thrown_Error ''Error'' ''Received malformed ad data''), w,
                      [Kv_Get cacheKey, OpenAI_Create validated])
                 | Some ads \<Rightarrow>
                     (Inr \<lparr>status = 200,
                           body = JObj [(''ads'', ads),
                             (''meta'', JObj ([(''cache'', JStr ''miss''), (''model'', JStr ''gpt-4'')]
                                @ opt ''tokens'' (map_option (\<lambda>n. JNum (of_nat n)) usage)))]\<rparr>,
                      cache_store e w cacheKey (JObj [(''ads'', ads)]) 3600,
                      [Kv_Get cacheKey, OpenAI_Create validated,
                       Kv_Set cacheKey (JObj [(''ads'', ads)]) 3600]))))"

text \<open>The body of the \<^verbatim>\<open>try\<close> block of \<^verbatim>\<open>POST\<close>.\<close>

definition generate_try ::
  "(string \<Rightarrow> json option) \<Rightarrow> env \<Rightarrow> request \<Rightarrow> world \<Rightarrow> caught attempt" where
  "generate_try JSON_parse e rq w =
     (let ip = client_ip rq;
          called = Ratelimit_Limit (''adgen-ratelimit:'' @ ''gen_'' @ ip)
      in case ratelimit_limit ''adgen-ratelimit'' e w (''gen_'' @ ip) of
           Inl t \<Rightarrow> (Inl (Other t), w, [called])
         | Inr (success, reset, w1) \<Rightarrow>
             if \<not> success then
               (Inr \<lparr>status = 429,
                     body = JObj [(''error'', JStr ''Free limit reached!''), (''reset'', JDate reset),
                                  (''upgradeUrl'', JStr ''/pricing'')]\<rparr>,
                w1, [called])
             else (case JSON_parse (body_text rq) of
                 None \<Rightarrow>
                   (Inl (Other (Thrown_Error ''Error'' ''Invalid JSON payload'')), w1,
                    [called, Request_Json])
               | Some b \<Rightarrow>
                   (case zod_object_parse GenerateAdSchema b of
                      Inl issues \<Rightarrow> (Inl (ZodError issues), w1, [called, Request_Json])
                    | Inr validated \<Rightarrow>
                        (case generate_resolve JSON_parse e w1 validated of
                           (r, w2, evs) \<Rightarrow>
                             (map_sum Other id r, w2, [called, Request_Json] @ evs)))))"

text \<open>The \<^verbatim>\<open>catch\<close> clause of \<^verbatim>\<open>POST\<close>.\<close>

definition generate_catch :: "caught \<Rightarrow> response" where
  "generate_catch error = (case error of
      ZodError issues \<Rightarrow>
        \<lparr>status = 400,
         body = JObj [(''error'', JStr ''Validation failed''), (''issues'', JArr (map issue_json issues))]\<rparr>
    | Other (Thrown_Error name msg) \<Rightarrow>
        \<lparr>status = 500, body = JObj [(''error'', JStr msg), (''code'', JStr name)]\<rparr>
    | Other Not_Error \<Rightarrow>
        \<lparr>status = 500,
         body = JObj [(''error'', JStr ''Generation failed''), (''code'', JStr ''UNKNOWN_ERROR'')]\<rparr>)"

definition generate_POST ::
  "(string \<Rightarrow> json option) \<Rightarrow> env \<Rightarrow> request \<Rightarrow> world \<Rightarrow> response \<times> world \<times> event list" where
  "generate_POST JSON_parse e rq w = (case generate_try JSON_parse e rq w of
      (Inl error, w', evs) \<Rightarrow> (generate_catch error, w', evs)
    | (Inr r, w', evs) \<Rightarrow> (r, w', evs))"

section \<open>The inspection endpoint\<close>

definition truthy_property :: "json option \<Rightarrow> bool" where
  "truthy_property v = (case v of None \<Rightarrow> False | Some x \<Rightarrow> truthy x)"

text \<open>
  The inner \<^verbatim>\<open>try\<close> around \<^verbatim>\<open>JSON.parse(content)\<close> and
  \<^verbatim>\<open>if (!analysis.grade || !analysis.suggestions) throw\<close>; \<open>None\<close> is its \<^verbatim>\<open>catch\<close>.
\<close>

definition parse_analysis :: "(string \<Rightarrow> json option) \<Rightarrow> string \<Rightarrow> json option" where
  "parse_analysis JSON_parse content = (case JSON_parse content of
      None \<Rightarrow> None
    | Some analysis \<Rightarrow>
        (case property analysis ''grade'' of
           Throws \<Rightarrow> None
         | Value grade \<Rightarrow>
             if \<not> truthy_property grade then None
             else (case property analysis ''suggestions'' of
                 Throws \<Rightarrow> None
               | Value suggestions \<Rightarrow>
                   if \<not> truthy_property suggestions then None else Some analysis)))"

definition inspect_resolve ::
  "(string \<Rightarrow> json option) \<Rightarrow> env \<Rightarrow> world \<Rightarrow> validated \<Rightarrow> thrown attempt" where
  "inspect_resolve JSON_parse e w validated =
     (let cacheKey = inspect_cacheKey validated;
          cached = cache_lookup e w cacheKey
      in if truthy cached then
           (Inr \<lparr>status = 200,
                 body = JObj (assign (spread cached) ''meta'' (JObj [(''cache'', JStr ''hit'')]))\<rparr>,
            w, [Kv_Get cacheKey])
         else (case provider e of
             Rejects msg \<Rightarrow>
               (Inl (Thrown_Error ''Error'' (''Analysis failed: '' @ msg)), w,
                [Kv_Get cacheKey, OpenAI_Create validated])
           | Resolves None usage \<Rightarrow>
               (Inl (Thrown_Error ''Error'' ''Empty response from OpenAI''), w,
                [Kv_Get cacheKey, OpenAI_Create validated])
           | Resolves (Some content) usage \<Rightarrow>
               if content = [] then
                 (Inl (Thrown_Error ''Error'' ''Empty response from OpenAI''), w,
                  [Kv_Get cacheKey, OpenAI_Create validated])
               else (case parse_analysis JSON_parse content of
                   None \<Rightarrow>
                     (Inl (Thrown_Error ''Error'' ''Received malformed analysis data''), w,
                      [Kv_Get cacheKey, OpenAI_Create validated])
                 | Some analysis \<Rightarrow>
                     (Inr \<lparr>status = 200,
                           body = JObj [(''analysis'', analysis),
                             (''meta'', JObj ([(''cache'', JStr ''miss''), (''model'', JStr ''gpt-4'')]
                                @ opt ''tokens'' (map_option (\<lambda>n. JNum (of_nat n)) usage)
                                @ [(''analyzedAt'', JDate (now e))]))]\<rparr>,
                      cache_store e w cacheKey (JObj [(''analysis'', analysis)]) 86400,
                      [Kv_Get cacheKey, OpenAI_Create validated,
                       Kv_Set cacheKey (JObj [(''analysis'', analysis)]) 86400]))))"

definition inspect_try ::
  "(string \<Rightarrow> json option) \<Rightarrow> env \<Rightarrow> request \<Rightarrow> world \<Rightarrow> thrown attempt" where
  "inspect_try JSON_parse e rq w =
     (let ip = client_ip rq;
          called = Ratelimit_Limit (''adinsp-ratelimit:'' @ ''insp_'' @ ip)
      in case ratelimit_limit ''adinsp-ratelimit'' e w (''insp_'' @ ip) of
           Inl t \<Rightarrow> (Inl t, w, [called])
         | Inr (success, reset, w1) \<Rightarrow>
             if \<not> success then
               (Inr \<lparr>status = 429,
                     body = JObj [(''error'', JStr ''Analysis limit reached!''), (''reset'', JDate reset),
                                  (''upgradeUrl'', JStr ''/pricing'')]\<rparr>,
                w1, [called])
             else (case JSON_parse (body_text rq) of
                 None \<Rightarrow> (Inl (Thrown_Error ''Error'' ''Invalid JSON payload''), w1, [called, Request_Json])
               | Some b \<Rightarrow>
                   (case zod_object_parse InspectAdSchema b of
                      Inl issues \<Rightarrow>
                        (Inr \<lparr>status = 400,
                              body = JObj [(''error'', JStr ''Validation failed''),
                                           (''issues'', JArr (map issue_json issues))]\<rparr>,
                         w1, [called, Request_Json])
                    | Inr validated \<Rightarrow>
                        (case inspect_resolve JSON_parse e w1 validated of
                           (r, w2, evs) \<Rightarrow> (r, w2, [called, Request_Json] @ evs)))))"

text \<open>
  The \<^verbatim>\<open>catch\<close> clause: the \<^verbatim>\<open>stack\<close> property is defined only under
  \<^verbatim>\<open>NODE_ENV === 'development'\<close>, for an Error that has a stack.
\<close>

definition inspect_catch :: "env \<Rightarrow> thrown \<Rightarrow> response" where
  "inspect_catch e error = (case error of
      Not_Error \<Rightarrow>
        \<lparr>status = 500,
         body = JObj [(''error'', JStr ''Analysis failed''), (''code'', JStr ''UNKNOWN_ERROR'')]\<rparr>
    | Thrown_Error name msg \<Rightarrow>
        \<lparr>status = 500,
         body = JObj ([(''error'', JStr msg), (''code'', JStr name)]
                  @ opt ''stack'' (if development e then map_option JStr (error_stack e) else None))\<rparr>)"

definition inspect_POST ::
  "(string \<Rightarrow> json option) \<Rightarrow> env \<Rightarrow> request \<Rightarrow> world \<Rightarrow> response \<times> world \<times> event list" where
  "inspect_POST JSON_parse e rq w = (case inspect_try JSON_parse e rq w of
      (Inl error, w', evs) \<Rightarrow> (inspect_catch e error, w', evs)
    | (Inr r, w', evs) \<Rightarrow> (r, w', evs))"

section \<open>Notions used in the statements\<close>

text \<open>The three parts of what a handler returns: the response, the state left, the calls made.\<close>

definition reply :: "response \<times> world \<times> event list \<Rightarrow> response" where
  "reply x = fst x"

definition next_world :: "response \<times> world \<times> event list \<Rightarrow> world" where
  "next_world x = fst (snd x)"

definition calls :: "response \<times> world \<times> event list \<Rightarrow> event list" where
  "calls x = snd (snd x)"

text \<open>The key under which each limiter counts a caller: its prefix, a colon, the identifier.\<close>

definition generate_key :: "request \<Rightarrow> string" where
  "generate_key rq = ''adgen-ratelimit:gen_'' @ client_ip rq"

definition inspect_key :: "request \<Rightarrow> string" where
  "inspect_key rq = ''adinsp-ratelimit:insp_'' @ client_ip rq"

text \<open>The units of a key's quota that are in use at a time: the admitted requests in its window.\<close>

definition used :: "world \<Rightarrow> string \<Rightarrow> nat \<Rightarrow> nat" where
  "used w key t = length (filter (in_window t) (limiter w key))"

definition record_admitted :: "world \<Rightarrow> string \<Rightarrow> nat \<Rightarrow> world" where
  "record_admitted w key t =
     w\<lparr>limiter := (limiter w)(key := t # filter (in_window t) (limiter w key))\<rparr>"

definition record_rejected :: "world \<Rightarrow> string \<Rightarrow> nat \<Rightarrow> world" where
  "record_rejected w key t =
     w\<lparr>limiter := (limiter w)(key := filter (in_window t) (limiter w key))\<rparr>"

text \<open>A request is admitted when its limiter answers, and answers yes.\<close>

definition generate_admits :: "env \<Rightarrow> request \<Rightarrow> world \<Rightarrow> bool" where
  "generate_admits e rq w = (limit_throws e = None \<and> used w (generate_key rq) (now e) < tokens)"

definition inspect_admits :: "env \<Rightarrow> request \<Rightarrow> world \<Rightarrow> bool" where
  "inspect_admits e rq w = (limit_throws e = None \<and> used w (inspect_key rq) (now e) < tokens)"

text \<open>The end of a handler once the request is validated: a thrown error goes to \<^verbatim>\<open>catch\<close>.\<close>

definition finish :: "thrown attempt \<Rightarrow> event list \<Rightarrow> response \<times> world \<times> event list" where
  "finish a evs = (case a of
      (Inl t, w, evs') \<Rightarrow> (generate_catch (Other t), w, evs @ evs')
    | (Inr r, w, evs') \<Rightarrow> (r, w, evs @ evs'))"

definition inspect_finish ::
  "env \<Rightarrow> thrown attempt \<Rightarrow> event list \<Rightarrow> response \<times> world \<times> event list" where
  "inspect_finish e a evs = (case a of
      (Inl t, w, evs') \<Rightarrow> (inspect_catch e t, w, evs @ evs')
    | (Inr r, w, evs') \<Rightarrow> (r, w, evs @ evs'))"

text \<open>The calls that reach the cache or the provider.\<close>

fun reads_cache :: "event \<Rightarrow> bool" where
  "reads_cache (Kv_Get k) = True"
| "reads_cache ev = False"

fun writes_cache :: "event \<Rightarrow> bool" where
  "writes_cache (Kv_Set k v ex) = True"
| "writes_cache ev = False"

fun calls_provider :: "event \<Rightarrow> bool" where
  "calls_provider (OpenAI_Create v) = True"
| "calls_provider ev = False"

text \<open>
  A provider answer lacks a field when it is not JSON text, or is JSON text of a value
  that has no property of that name.
\<close>

definition lacks :: "(string \<Rightarrow> json option) \<Rightarrow> string \<Rightarrow> string \<Rightarrow> bool" where
  "lacks JSON_parse content name = (case JSON_parse content of
      None \<Rightarrow> True
    | Some (JObj ps) \<Rightarrow> name \<notin> set (map fst ps)
    | Some v \<Rightarrow> True)"

text \<open>
  A property offends its schema when it is required and missing, when it is not a string,
  when its length is outside a bound, or when it is not one of the enumerated values.
\<close>

fun meets :: "zod_check \<Rightarrow> string \<Rightarrow> bool" where
  "meets (Min n) s = (n \<le> length s)"
| "meets (Max n) s = (length s \<le> n)"

fun offends :: "zod_type \<Rightarrow> json option \<Rightarrow> bool" where
  "offends (ZOptional t) None = False"
| "offends (ZOptional t) (Some v) = offends t (Some v)"
| "offends (ZString checks) (Some (JStr s)) = (\<not> list_all (\<lambda>c. meets c s) checks)"
| "offends (ZEnum options) (Some (JStr s)) = (s \<notin> set options)"
| "offends t x = True"

text \<open>A response body names a field when an entry of its \<open>issues\<close> array has it as \<open>path\<close>.\<close>

definition names_field :: "string \<Rightarrow> json \<Rightarrow> bool" where
  "names_field f b = (case property b ''issues'' of
      Value (Some (JArr issues)) \<Rightarrow> list_ex (\<lambda>i. property i ''path'' = Value (Some (JStr f))) issues
    | _ \<Rightarrow> False)"

text \<open>
  A response body carries field paths when it has an \<open>issues\<close> array with an entry, and
  every entry has a \<open>path\<close> and a \<open>message\<close>.
\<close>

definition carries_field_paths :: "json \<Rightarrow> bool" where
  "carries_field_paths b = (case property b ''issues'' of
      Value (Some (JArr issues)) \<Rightarrow>
        issues \<noteq> [] \<and>
        list_all (\<lambda>i. property i ''path'' \<noteq> Value None \<and> property i ''message'' \<noteq> Value None) issues
    | _ \<Rightarrow> False)"

section \<open>Examples\<close>

text \<open>
  The request of the spec's scenario for the generation endpoint: its text, the value
  \<^verbatim>\<open>JSON.parse\<close> gives for it, and the validated request.
\<close>

definition scenario_text :: string where
  \<open>scenario_text = ''{"targetAudience":"Busy moms aged 25 40 yrs","goal":"Increase signups fast","uniqueSellingPoint":"Only app with live coaching","contextDescription":"We help moms build healthy routines in 10 minutes a day with proven plans.","brandVoice":"Friendly","keyEmotion":"Trust","adFormat":"Single Image","industry":"Health","preferredCTA":"Sign Up","visualDirection":"Lifestyle"}''\<close>

definition scenario_body :: json where
  "scenario_body = JObj
    [(''targetAudience'', JStr ''Busy moms aged 25 40 yrs''),
     (''goal'', JStr ''Increase signups fast''),
     (''uniqueSellingPoint'', JStr ''Only app with live coaching''),
     (''contextDescription'',
        JStr ''We help moms build healthy routines in 10 minutes a day with proven plans.''),
     (''brandVoice'', JStr ''Friendly''),
     (''keyEmotion'', JStr ''Trust''),
     (''adFormat'', JStr ''Single Image''),
     (''industry'', JStr ''Health''),
     (''preferredCTA'', JStr ''Sign Up''),
     (''visualDirection'', JStr ''Lifestyle'')]"

definition scenario_validated :: validated where
  "scenario_validated =
    [(''targetAudience'', ''Busy moms aged 25 40 yrs''),
     (''goal'', ''Increase signups fast''),
     (''uniqueSellingPoint'', ''Only app with live coaching''),
     (''contextDescription'',
        ''We help moms build healthy routines in 10 minutes a day with proven plans.''),
     (''brandVoice'', ''Friendly''),
     (''keyEmotion'', ''Trust''),
     (''adFormat'', ''Single Image''),
     (''industry'', ''Health''),
     (''preferredCTA'', ''Sign Up''),
     (''visualDirection'', ''Lifestyle'')]"

text \<open>A provider answer for it, and the value of its \<open>ads\<close> property.\<close>

definition ads_text :: string where
  \<open>ads_text = ''{"ads":[{"type":"Single Image","headline":"Ten minutes a day"}]}''\<close>

definition ads_value :: json where
  "ads_value = JArr [JObj [(''type'', JStr ''Single Image''), (''headline'', JStr ''Ten minutes a day'')]]"

text \<open>A request for the inspection endpoint, and a provider answer for it.\<close>

definition inspection_text :: string where
  \<open>inspection_text = ''{"headline":"Sleep better tonight","body":"Our mattress adapts to you.","cta":"Shop","offerDescription":"Thirty nights free trial","adType":"facebook","industry":"Health"}''\<close>

definition inspection_body :: json where
  "inspection_body = JObj
    [(''headline'', JStr ''Sleep better tonight''),
     (''body'', JStr ''Our mattress adapts to you.''),
     (''cta'', JStr ''Shop''),
     (''offerDescription'', JStr ''Thirty nights free trial''),
     (''adType'', JStr ''facebook''),
     (''industry'', JStr ''Health'')]"

definition inspection_validated :: validated where
  "inspection_validated =
    [(''headline'', ''Sleep better tonight''),
     (''body'', ''Our mattress adapts to you.''),
     (''cta'', ''Shop''),
     (''offerDescription'', ''Thirty nights free trial''),
     (''adType'', ''facebook''),
     (''industry'', ''Health'')]"

definition analysis_text :: string where
  \<open>analysis_text = ''{"grade":"B","suggestions":["Shorten the headline"]}''\<close>

definition analysis_value :: json where
  "analysis_value = JObj [(''grade'', JStr ''B''), (''suggestions'', JArr [JStr ''Shorten the headline''])]"

text \<open>
  Three more texts: JSON without the fields the handlers look for, a body that breaks
  the schemas, and a text that is not JSON.
\<close>

definition variations_text :: string where
  \<open>variations_text = ''{"variations":[]}''\<close>

definition short_goal_text :: string where
  \<open>short_goal_text = ''{"goal":"short"}''\<close>

definition truncated_text :: string where
  \<open>truncated_text = ''{"goal":''\<close>

text \<open>\<^verbatim>\<open>JSON.parse\<close>, restricted to the texts of these examples.\<close>

definition sample_parse :: "string \<Rightarrow> json option" where
  "sample_parse text = map_of
     [(scenario_text, scenario_body),
      (inspection_text, inspection_body),
      (ads_text, JObj [(''ads'', ads_value)]),
      (analysis_text, analysis_value),
      (variations_text, JObj [(''variations'', JArr [])]),
      (short_goal_text, JObj [(''goal'', JStr ''short'')])] text"

text \<open>
  An empty store, an environment in production at a given time in which nothing fails,
  and a caller behind one proxy.
\<close>

definition fresh_world :: world where
  "fresh_world = \<lparr>cache = Map.empty, limiter = (\<lambda>key. [])\<rparr>"

definition env_at :: "nat \<Rightarrow> completion \<Rightarrow> env" where
  "env_at t answer =
     \<lparr>now = t, development = False, error_stack = None, limit_throws = None,
      kv_get_fails = False, kv_set_fails = False, provider = answer\<rparr>"

definition caller :: "string \<Rightarrow> request" where
  "caller text = \<lparr>x_forwarded_for = Some ''203.0.113.7, 10.0.0.1'', body_text = text\<rparr>"

section \<open>The stages of the generation endpoint\<close>

lemma ratelimit_limit_throws:
  "limit_throws e = Some t \<Longrightarrow> ratelimit_limit prefix e w identifier = Inl t"
  by (simp add: ratelimit_limit_def)

lemma ratelimit_limit_admits:
  "limit_throws e = None \<Longrightarrow> used w (prefix @ '':'' @ identifier) (now e) < tokens \<Longrightarrow>
   ratelimit_limit prefix e w identifier =
     Inr (True, oldest (now e # filter (in_window (now e)) (limiter w (prefix @ '':'' @ identifier))) + window,
          record_admitted w (prefix @ '':'' @ identifier) (now e))"
  by (simp add: ratelimit_limit_def slidingWindow_def used_def record_admitted_def Let_def)

lemma ratelimit_limit_rejects:
  "limit_throws e = None \<Longrightarrow> \<not> used w (prefix @ '':'' @ identifier) (now e) < tokens \<Longrightarrow>
   ratelimit_limit prefix e w identifier =
     Inr (False, oldest (filter (in_window (now e)) (limiter w (prefix @ '':'' @ identifier))) + window,
          record_rejected w (prefix @ '':'' @ identifier) (now e))"
  by (simp add: ratelimit_limit_def slidingWindow_def used_def record_rejected_def Let_def)

lemma generate_POST_limiter_fails:
  "limit_throws e = Some t \<Longrightarrow>
   generate_POST P e rq w = (generate_catch (Other t), w, [Ratelimit_Limit (generate_key rq)])"
  by (simp add: generate_POST_def generate_try_def ratelimit_limit_throws generate_key_def)

lemma generate_POST_rejected:
  "limit_throws e = None \<Longrightarrow> \<not> used w (generate_key rq) (now e) < tokens \<Longrightarrow>
   generate_POST P e rq w =
     (\<lparr>status = 429,
       body = JObj [(''error'', JStr ''Free limit reached!''),
                    (''reset'', JDate (oldest (filter (in_window (now e)) (limiter w (generate_key rq))) + window)),
                    (''upgradeUrl'', JStr ''/pricing'')]\<rparr>,
      record_rejected w (generate_key rq) (now e), [Ratelimit_Limit (generate_key rq)])"
  using ratelimit_limit_rejects [of e w "''adgen-ratelimit''" "''gen_'' @ client_ip rq"]
  by (simp add: generate_POST_def generate_try_def generate_key_def Let_def)

lemma generate_POST_bad_json:
  "limit_throws e = None \<Longrightarrow> used w (generate_key rq) (now e) < tokens \<Longrightarrow>
   P (body_text rq) = None \<Longrightarrow>
   generate_POST P e rq w =
     (\<lparr>status = 500, body = JObj [(''error'', JStr ''Invalid JSON payload''), (''code'', JStr ''Error'')]\<rparr>,
      record_admitted w (generate_key rq) (now e), [Ratelimit_Limit (generate_key rq), Request_Json])"
  using ratelimit_limit_admits [of e w "''adgen-ratelimit''" "''gen_'' @ client_ip rq"]
  by (simp add: generate_POST_def generate_try_def generate_key_def generate_catch_def Let_def)

lemma generate_POST_invalid:
  "limit_throws e = None \<Longrightarrow> used w (generate_key rq) (now e) < tokens \<Longrightarrow>
   P (body_text rq) = Some b \<Longrightarrow> zod_object_parse GenerateAdSchema b = Inl issues \<Longrightarrow>
   generate_POST P e rq w =
     (\<lparr>status = 400,
       body = JObj [(''error'', JStr ''Validation failed''), (''issues'', JArr (map issue_json issues))]\<rparr>,
      record_admitted w (generate_key rq) (now e), [Ratelimit_Limit (generate_key rq), Request_Json])"
  using ratelimit_limit_admits [of e w "''adgen-ratelimit''" "''gen_'' @ client_ip rq"]
  by (simp add: generate_POST_def generate_try_def generate_key_def generate_catch_def Let_def)

lemma generate_POST_valid:
  "limit_throws e = None \<Longrightarrow> used w (generate_key rq) (now e) < tokens \<Longrightarrow>
   P (body_text rq) = Some b \<Longrightarrow> zod_object_parse GenerateAdSchema b = Inr v \<Longrightarrow>
   generate_POST P e rq w =
     finish (generate_resolve P e (record_admitted w (generate_key rq) (now e)) v)
       [Ratelimit_Limit (generate_key rq), Request_Json]"
  using ratelimit_limit_admits [of e w "''adgen-ratelimit''" "''gen_'' @ client_ip rq"]
  by (simp add: generate_POST_def generate_try_def generate_key_def finish_def Let_def split: prod.splits sum.splits)

lemma generate_resolve_hit:
  "truthy (cache_lookup e w (generate_cacheKey v)) \<Longrightarrow>
   generate_resolve P e w v =
     (Inr \<lparr>status = 200, body = cache_lookup e w (generate_cacheKey v)\<rparr>, w,
      [Kv_Get (generate_cacheKey v)])"
  by (simp add: generate_resolve_def Let_def)

lemma generate_resolve_rejects:
  "\<not> truthy (cache_lookup e w (generate_cacheKey v)) \<Longrightarrow> provider e = Rejects msg \<Longrightarrow>
   generate_resolve P e w v =
     (Inl (Thrown_Error ''Error'' (''OpenAI request failed: '' @ msg)), w,
      [Kv_Get (generate_cacheKey v), OpenAI_Create v])"
  by (simp add: generate_resolve_def Let_def)

lemma generate_resolve_empty:
  "\<not> truthy (cache_lookup e w (generate_cacheKey v)) \<Longrightarrow> provider e = Resolves c usage \<Longrightarrow>
   c = None \<or> c = Some [] \<Longrightarrow>
   generate_resolve P e w v =
     (Inl (Thrown_Error ''Error'' ''Empty response from OpenAI''), w,
      [Kv_Get (generate_cacheKey v), OpenAI_Create v])"
  by (auto simp add: generate_resolve_def Let_def)

lemma generate_resolve_malformed:
  "\<not> truthy (cache_lookup e w (generate_cacheKey v)) \<Longrightarrow>
   provider e = Resolves (Some content) usage \<Longrightarrow> content \<noteq> [] \<Longrightarrow>
   parse_ads P content = None \<Longrightarrow>
   generate_resolve P e w v =
     (Inl (Thrown_Error ''Error'' ''Received malformed ad data''), w,
      [Kv_Get (generate_cacheKey v), OpenAI_Create v])"
  by (simp add: generate_resolve_def Let_def)

lemma generate_resolve_fresh:
  "\<not> truthy (cache_lookup e w (generate_cacheKey v)) \<Longrightarrow>
   provider e = Resolves (Some content) usage \<Longrightarrow> content \<noteq> [] \<Longrightarrow>
   parse_ads P content = Some ads \<Longrightarrow>
   generate_resolve P e w v =
     (Inr \<lparr>status = 200,
           body = JObj [(''ads'', ads),
             (''meta'', JObj ([(''cache'', JStr ''miss''), (''model'', JStr ''gpt-4'')]
                @ opt ''tokens'' (map_option (\<lambda>n. JNum (of_nat n)) usage)))]\<rparr>,
      cache_store e w (generate_cacheKey v) (JObj [(''ads'', ads)]) 3600,
      [Kv_Get (generate_cacheKey v), OpenAI_Create v,
       Kv_Set (generate_cacheKey v) (JObj [(''ads'', ads)]) 3600])"
  by (simp add: generate_resolve_def Let_def)

lemma generate_resolve_cases [case_names Hit Rejects Empty Malformed Fresh]:
  assumes "truthy (cache_lookup e w (generate_cacheKey v)) \<Longrightarrow> thesis"
    and "\<And>msg. \<not> truthy (cache_lookup e w (generate_cacheKey v)) \<Longrightarrow> provider e = Rejects msg \<Longrightarrow> thesis"
    and "\<And>c usage. \<not> truthy (cache_lookup e w (generate_cacheKey v)) \<Longrightarrow>
           provider e = Resolves c usage \<Longrightarrow> c = None \<or> c = Some [] \<Longrightarrow> thesis"
    and "\<And>content usage. \<not> truthy (cache_lookup e w (generate_cacheKey v)) \<Longrightarrow>
           provider e = Resolves (Some content) usage \<Longrightarrow> content \<noteq> [] \<Longrightarrow>
           parse_ads P content = None \<Longrightarrow> thesis"
    and "\<And>content usage ads. \<not> truthy (cache_lookup e w (generate_cacheKey v)) \<Longrightarrow>
           provider e = Resolves (Some content) usage \<Longrightarrow> content \<noteq> [] \<Longrightarrow>
           parse_ads P content = Some ads \<Longrightarrow> thesis"
  shows thesis
proof (cases "truthy (cache_lookup e w (generate_cacheKey v))")
  case True
  then show ?thesis by (rule assms(1))
next
  case miss: False
  show ?thesis
  proof (cases "provider e")
    case (Rejects msg)
    with miss show ?thesis by (rule assms(2))
  next
    case (Resolves c usage)
    show ?thesis
    proof (cases "c = None \<or> c = Some []")
      case True
      with miss Resolves show ?thesis by (rule assms(3))
    next
      case False
      then obtain content where c: "c = Some content" "content \<noteq> []" by auto
      show ?thesis
      proof (cases "parse_ads P content")
        case None
        with miss Resolves c show ?thesis using assms(4) by blast
      next
        case (Some ads)
        with miss Resolves c show ?thesis using assms(5) by blast
      qed
    qed
  qed
qed

lemma generate_POST_cases [case_names Limiter_Fails Rejected Bad_Json Invalid Valid]:
  assumes "\<And>t. limit_throws e = Some t \<Longrightarrow> thesis"
    and "limit_throws e = None \<Longrightarrow> \<not> used w (generate_key rq) (now e) < tokens \<Longrightarrow> thesis"
    and "limit_throws e = None \<Longrightarrow> used w (generate_key rq) (now e) < tokens \<Longrightarrow>
         P (body_text rq) = None \<Longrightarrow> thesis"
    and "\<And>b issues. limit_throws e = None \<Longrightarrow> used w (generate_key rq) (now e) < tokens \<Longrightarrow>
         P (body_text rq) = Some b \<Longrightarrow> zod_object_parse GenerateAdSchema b = Inl issues \<Longrightarrow> thesis"
    and "\<And>b v. limit_throws e = None \<Longrightarrow> used w (generate_key rq) (now e) < tokens \<Longrightarrow>
         P (body_text rq) = Some b \<Longrightarrow> zod_object_parse GenerateAdSchema b = Inr v \<Longrightarrow> thesis"
  shows thesis
proof (cases "limit_throws e")
  case (Some t)
  then show ?thesis by (rule assms(1))
next
  case up: None
  show ?thesis
  proof (cases "used w (generate_key rq) (now e) < tokens")
    case False
    with up show ?thesis by (rule assms(2))
  next
    case room: True
    show ?thesis
    proof (cases "P (body_text rq)")
      case None
      with up room show ?thesis by (rule assms(3))
    next
      case (Some b)
      show ?thesis
      proof (cases "zod_object_parse GenerateAdSchema b")
        case (Inl issues)
        with up room Some show ?thesis using assms(4) by blast
      next
        case (Inr v)
        with up room Some show ?thesis using assms(5) by blast
      qed
    qed
  qed
qed

section \<open>The stages of the inspection endpoint\<close>

lemma inspect_POST_limiter_fails:
  "limit_throws e = Some t \<Longrightarrow>
   inspect_POST P e rq w = (inspect_catch e t, w, [Ratelimit_Limit (inspect_key rq)])"
  by (simp add: inspect_POST_def inspect_try_def ratelimit_limit_throws inspect_key_def Let_def)

lemma inspect_POST_rejected:
  "limit_throws e = None \<Longrightarrow> \<not> used w (inspect_key rq) (now e) < tokens \<Longrightarrow>
   inspect_POST P e rq w =
     (\<lparr>status = 429,
       body = JObj [(''error'', JStr ''Analysis limit reached!''),
                    (''reset'', JDate (oldest (filter (in_window (now e)) (limiter w (inspect_key rq))) + window)),
                    (''upgradeUrl'', JStr ''/pricing'')]\<rparr>,
      record_rejected w (inspect_key rq) (now e), [Ratelimit_Limit (inspect_key rq)])"
  using ratelimit_limit_rejects [of e w "''adinsp-ratelimit''" "''insp_'' @ client_ip rq"]
  by (simp add: inspect_POST_def inspect_try_def inspect_key_def Let_def)

lemma inspect_POST_bad_json:
  "limit_throws e = None \<Longrightarrow> used w (inspect_key rq) (now e) < tokens \<Longrightarrow>
   P (body_text rq) = None \<Longrightarrow>
   inspect_POST P e rq w =
     (inspect_catch e (Thrown_Error ''Error'' ''Invalid JSON payload''),
      record_admitted w (inspect_key rq) (now e), [Ratelimit_Limit (inspect_key rq), Request_Json])"
  using ratelimit_limit_admits [of e w "''adinsp-ratelimit''" "''insp_'' @ client_ip rq"]
  by (simp add: inspect_POST_def inspect_try_def inspect_key_def Let_def)

lemma inspect_POST_invalid:
  "limit_throws e = None \<Longrightarrow> used w (inspect_key rq) (now e) < tokens \<Longrightarrow>
   P (body_text rq) = Some b \<Longrightarrow> zod_object_parse InspectAdSchema b = Inl issues \<Longrightarrow>
   inspect_POST P e rq w =
     (\<lparr>status = 400,
       body = JObj [(''error'', JStr ''Validation failed''), (''issues'', JArr (map issue_json issues))]\<rparr>,
      record_admitted w (inspect_key rq) (now e), [Ratelimit_Limit (inspect_key rq), Request_Json])"
  using ratelimit_limit_admits [of e w "''adinsp-ratelimit''" "''insp_'' @ client_ip rq"]
  by (simp add: inspect_POST_def inspect_try_def inspect_key_def Let_def)

lemma inspect_POST_valid:
  "limit_throws e = None \<Longrightarrow> used w (inspect_key rq) (now e) < tokens \<Longrightarrow>
   P (body_text rq) = Some b \<Longrightarrow> zod_object_parse InspectAdSchema b = Inr v \<Longrightarrow>
   inspect_POST P e rq w =
     inspect_finish e (inspect_resolve P e (record_admitted w (inspect_key rq) (now e)) v)
       [Ratelimit_Limit (inspect_key rq), Request_Json]"
  using ratelimit_limit_admits [of e w "''adinsp-ratelimit''" "''insp_'' @ client_ip rq"]
  by (simp add: inspect_POST_def inspect_try_def inspect_key_def inspect_finish_def Let_def
      split: prod.splits sum.splits)

lemma inspect_resolve_hit:
  "truthy (cache_lookup e w (inspect_cacheKey v)) \<Longrightarrow>
   inspect_resolve P e w v =
     (Inr \<lparr>status = 200,
           body = JObj (assign (spread (cache_lookup e w (inspect_cacheKey v))) ''meta''
                          (JObj [(''cache'', JStr ''hit'')]))\<rparr>,
      w, [Kv_Get (inspect_cacheKey v)])"
  by (simp add: inspect_resolve_def Let_def)

lemma inspect_resolve_rejects:
  "\<not> truthy (cache_lookup e w (inspect_cacheKey v)) \<Longrightarrow> provider e = Rejects msg \<Longrightarrow>
   inspect_resolve P e w v =
     (Inl (Thrown_Error ''Error'' (''Analysis failed: '' @ msg)), w,
      [Kv_Get (inspect_cacheKey v), OpenAI_Create v])"
  by (simp add: inspect_resolve_def Let_def)

lemma inspect_resolve_empty:
  "\<not> truthy (cache_lookup e w (inspect_cacheKey v)) \<Longrightarrow> provider e = Resolves c usage \<Longrightarrow>
   c = None \<or> c = Some [] \<Longrightarrow>
   inspect_resolve P e w v =
     (Inl (Thrown_Error ''Error'' ''Empty response from OpenAI''), w,
      [Kv_Get (inspect_cacheKey v), OpenAI_Create v])"
  by (auto simp add: inspect_resolve_def Let_def)

lemma inspect_resolve_malformed:
  "\<not> truthy (cache_lookup e w (inspect_cacheKey v)) \<Longrightarrow>
   provider e = Resolves (Some content) usage \<Longrightarrow> content \<noteq> [] \<Longrightarrow>
   parse_analysis P content = None \<Longrightarrow>
   inspect_resolve P e w v =
     (Inl (Thrown_Error ''Error'' ''Received malformed analysis data''), w,
      [Kv_Get (inspect_cacheKey v), OpenAI_Create v])"
  by (simp add: inspect_resolve_def Let_def)

lemma inspect_resolve_fresh:
  "\<not> truthy (cache_lookup e w (inspect_cacheKey v)) \<Longrightarrow>
   provider e = Resolves (Some content) usage \<Longrightarrow> content \<noteq> [] \<Longrightarrow>
   parse_analysis P content = Some analysis \<Longrightarrow>
   inspect_resolve P e w v =
     (Inr \<lparr>status = 200,
           body = JObj [(''analysis'', analysis),
             (''meta'', JObj ([(''cache'', JStr ''miss''), (''model'', JStr ''gpt-4'')]
                @ opt ''tokens'' (map_option (\<lambda>n. JNum (of_nat n)) usage)
                @ [(''analyzedAt'', JDate (now e))]))]\<rparr>,
      cache_store e w (inspect_cacheKey v) (JObj [(''analysis'', analysis)]) 86400,
      [Kv_Get (inspect_cacheKey v), OpenAI_Create v,
       Kv_Set (inspect_cacheKey v) (JObj [(''analysis'', analysis)]) 86400])"
  by (simp add: inspect_resolve_def Let_def)

lemma inspect_resolve_cases [case_names Hit Rejects Empty Malformed Fresh]:
  assumes "truthy (cache_lookup e w (inspect_cacheKey v)) \<Longrightarrow> thesis"
    and "\<And>msg. \<not> truthy (cache_lookup e w (inspect_cacheKey v)) \<Longrightarrow> provider e = Rejects msg \<Longrightarrow> thesis"
    and "\<And>c usage. \<not> truthy (cache_lookup e w (inspect_cacheKey v)) \<Longrightarrow>
           provider e = Resolves c usage \<Longrightarrow> c = None \<or> c = Some [] \<Longrightarrow> thesis"
    and "\<And>content usage. \<not> truthy (cache_lookup e w (inspect_cacheKey v)) \<Longrightarrow>
           provider e = Resolves (Some content) usage \<Longrightarrow> content \<noteq> [] \<Longrightarrow>
           parse_analysis P content = None \<Longrightarrow> thesis"
    and "\<And>content usage analysis. \<not> truthy (cache_lookup e w (inspect_cacheKey v)) \<Longrightarrow>
           provider e = Resolves (Some content) usage \<Longrightarrow> content \<noteq> [] \<Longrightarrow>
           parse_analysis P content = Some analysis \<Longrightarrow> thesis"
  shows thesis
proof (cases "truthy (cache_lookup e w (inspect_cacheKey v))")
  case True
  then show ?thesis by (rule assms(1))
next
  case miss: False
  show ?thesis
  proof (cases "provider e")
    case (Rejects msg)
    with miss show ?thesis by (rule assms(2))
  next
    case (Resolves c usage)
    show ?thesis
    proof (cases "c = None \<or> c = Some []")
      case True
      with miss Resolves show ?thesis by (rule assms(3))
    next
      case False
      then obtain content where c: "c = Some content" "content \<noteq> []" by auto
      show ?thesis
      proof (cases "parse_analysis P content")
        case None
        with miss Resolves c show ?thesis using assms(4) by blast
      next
        case (Some analysis)
        with miss Resolves c show ?thesis using assms(5) by blast
      qed
    qed
  qed
qed

lemma inspect_POST_cases [case_names Limiter_Fails Rejected Bad_Json Invalid Valid]:
  assumes "\<And>t. limit_throws e = Some t \<Longrightarrow> thesis"
    and "limit_throws e = None \<Longrightarrow> \<not> used w (inspect_key rq) (now e) < tokens \<Longrightarrow> thesis"
    and "limit_throws e = None \<Longrightarrow> used w (inspect_key rq) (now e) < tokens \<Longrightarrow>
         P (body_text rq) = None \<Longrightarrow> thesis"
    and "\<And>b issues. limit_throws e = None \<Longrightarrow> used w (inspect_key rq) (now e) < tokens \<Longrightarrow>
         P (body_text rq) = Some b \<Longrightarrow> zod_object_parse InspectAdSchema b = Inl issues \<Longrightarrow> thesis"
    and "\<And>b v. limit_throws e = None \<Longrightarrow> used w (inspect_key rq) (now e) < tokens \<Longrightarrow>
         P (body_text rq) = Some b \<Longrightarrow> zod_object_parse InspectAdSchema b = Inr v \<Longrightarrow> thesis"
  shows thesis
proof (cases "limit_throws e")
  case (Some t)
  then show ?thesis by (rule assms(1))
next
  case up: None
  show ?thesis
  proof (cases "used w (inspect_key rq) (now e) < tokens")
    case False
    with up show ?thesis by (rule assms(2))
  next
    case room: True
    show ?thesis
    proof (cases "P (body_text rq)")
      case None
      with up room show ?thesis by (rule assms(3))
    next
      case (Some b)
      show ?thesis
      proof (cases "zod_object_parse InspectAdSchema b")
        case (Inl issues)
        with up room Some show ?thesis using assms(4) by blast
      next
        case (Inr v)
        with up room Some show ?thesis using assms(5) by blast
      qed
    qed
  qed
qed

section \<open>Malformed provider answers\<close>

lemma lacks_ads: "lacks P content ''ads'' \<Longrightarrow> parse_ads P content = None"
  by (auto simp add: lacks_def parse_ads_def map_of_eq_None_iff [symmetric]
      split: option.splits json.splits access.splits)

lemma lacks_analysis:
  "lacks P content ''grade'' \<or> lacks P content ''suggestions'' \<Longrightarrow> parse_analysis P content = None"
  by (auto simp add: lacks_def parse_analysis_def truthy_property_def map_of_eq_None_iff [symmetric]
      split: option.splits json.splits access.splits)

lemma generate_malformed:
  assumes p: "provider e = Resolves (Some content) usage"
    and l: "lacks P content ''ads''"
    and c: "list_ex calls_provider (calls (generate_POST P e rq w))"
  shows "status (reply (generate_POST P e rq w)) = 500 \<and>
         \<not> list_ex writes_cache (calls (generate_POST P e rq w)) \<and>
         cache (next_world (generate_POST P e rq w)) = cache w \<and>
         (content \<noteq> [] \<longrightarrow> body (reply (generate_POST P e rq w)) =
            JObj [(''error'', JStr ''Received malformed ad data''), (''code'', JStr ''Error'')])"
proof (cases rule: generate_POST_cases [where e = e and w = w and rq = rq and P = P])
  case (Limiter_Fails t)
  with c show ?thesis by (simp add: generate_POST_limiter_fails calls_def)
next
  case Rejected
  with c show ?thesis by (simp add: generate_POST_rejected calls_def)
next
  case Bad_Json
  with c show ?thesis by (simp add: generate_POST_bad_json calls_def)
next
  case (Invalid b issues)
  with c show ?thesis by (simp add: generate_POST_invalid calls_def)
next
  case (Valid b v)
  note post = generate_POST_valid [where P = P, OF Valid]
  let ?w = "record_admitted w (generate_key rq) (now e)"
  have same: "cache ?w = cache w" by (simp add: record_admitted_def)
  show ?thesis
  proof (cases rule: generate_resolve_cases [where e = e and w = ?w and v = v and P = P])
    case Hit
    with c post show ?thesis
      by (simp add: generate_resolve_hit finish_def calls_def)
  next
    case (Rejects msg)
    with p show ?thesis by simp
  next
    case (Empty c' usage')
    with p have "content = []" by auto
    with Empty post same show ?thesis
      by (simp add: generate_resolve_empty [where P = P, OF Empty] finish_def calls_def reply_def next_world_def
          generate_catch_def)
  next
    case (Malformed content' usage')
    with post same show ?thesis
      by (simp add: generate_resolve_malformed [where P = P, OF Malformed] finish_def calls_def reply_def
          next_world_def generate_catch_def)
  next
    case (Fresh content' usage' ads)
    from l have "parse_ads P content = None" by (rule lacks_ads)
    with p Fresh show ?thesis by simp
  qed
qed

lemma inspect_malformed:
  assumes p: "provider e = Resolves (Some content) usage"
    and l: "lacks P content ''grade'' \<or> lacks P content ''suggestions''"
    and c: "list_ex calls_provider (calls (inspect_POST P e rq w))"
  shows "status (reply (inspect_POST P e rq w)) = 500 \<and>
         \<not> list_ex writes_cache (calls (inspect_POST P e rq w)) \<and>
         cache (next_world (inspect_POST P e rq w)) = cache w \<and>
         (content \<noteq> [] \<longrightarrow> property (body (reply (inspect_POST P e rq w))) ''error'' =
            Value (Some (JStr ''Received malformed analysis data'')))"
proof (cases rule: inspect_POST_cases [where e = e and w = w and rq = rq and P = P])
  case (Limiter_Fails t)
  with c show ?thesis by (simp add: inspect_POST_limiter_fails calls_def)
next
  case Rejected
  with c show ?thesis by (simp add: inspect_POST_rejected calls_def)
next
  case Bad_Json
  with c show ?thesis by (simp add: inspect_POST_bad_json calls_def)
next
  case (Invalid b issues)
  with c show ?thesis by (simp add: inspect_POST_invalid calls_def)
next
  case (Valid b v)
  note post = inspect_POST_valid [where P = P, OF Valid]
  let ?w = "record_admitted w (inspect_key rq) (now e)"
  have same: "cache ?w = cache w" by (simp add: record_admitted_def)
  show ?thesis
  proof (cases rule: inspect_resolve_cases [where e = e and w = ?w and v = v and P = P])
    case Hit
    with c post show ?thesis
      by (simp add: inspect_resolve_hit inspect_finish_def calls_def)
  next
    case (Rejects msg)
    with p show ?thesis by simp
  next
    case (Empty c' usage')
    with p have "content = []" by auto
    with Empty post same show ?thesis
      by (simp add: inspect_resolve_empty [where P = P, OF Empty] inspect_finish_def calls_def
          reply_def next_world_def inspect_catch_def)
  next
    case (Malformed content' usage')
    with post same show ?thesis
      by (simp add: inspect_resolve_malformed [where P = P, OF Malformed] inspect_finish_def
          calls_def reply_def next_world_def inspect_catch_def)
  next
    case (Fresh content' usage' analysis)
    from l have "parse_analysis P content = None" by (rule lacks_analysis)
    with p Fresh show ?thesis by simp
  qed
qed

section \<open>Requests that fail validation\<close>

lemma generate_invalid_stops:
  assumes b: "P (body_text rq) = Some b" and z: "zod_object_parse GenerateAdSchema b = Inl issues"
  shows "cache (next_world (generate_POST P e rq w)) = cache w \<and>
         \<not> list_ex reads_cache (calls (generate_POST P e rq w)) \<and>
         \<not> list_ex writes_cache (calls (generate_POST P e rq w)) \<and>
         \<not> list_ex calls_provider (calls (generate_POST P e rq w))"
proof (cases rule: generate_POST_cases [where e = e and w = w and rq = rq and P = P])
  case (Limiter_Fails t)
  then show ?thesis by (simp add: generate_POST_limiter_fails calls_def next_world_def)
next
  case Rejected
  then show ?thesis
    by (simp add: generate_POST_rejected calls_def next_world_def record_rejected_def)
next
  case Bad_Json
  with b show ?thesis by simp
next
  case (Invalid b' issues')
  then show ?thesis
    by (simp add: generate_POST_invalid [where P = P, OF Invalid] calls_def next_world_def
        record_admitted_def)
next
  case (Valid b' v)
  with b z show ?thesis by simp
qed

lemma inspect_invalid_stops:
  assumes b: "P (body_text rq) = Some b" and z: "zod_object_parse InspectAdSchema b = Inl issues"
  shows "cache (next_world (inspect_POST P e rq w)) = cache w \<and>
         \<not> list_ex reads_cache (calls (inspect_POST P e rq w)) \<and>
         \<not> list_ex writes_cache (calls (inspect_POST P e rq w)) \<and>
         \<not> list_ex calls_provider (calls (inspect_POST P e rq w))"
proof (cases rule: inspect_POST_cases [where e = e and w = w and rq = rq and P = P])
  case (Limiter_Fails t)
  then show ?thesis by (simp add: inspect_POST_limiter_fails calls_def next_world_def)
next
  case Rejected
  then show ?thesis
    by (simp add: inspect_POST_rejected calls_def next_world_def record_rejected_def)
next
  case Bad_Json
  with b show ?thesis by simp
next
  case (Invalid b' issues')
  then show ?thesis
    by (simp add: inspect_POST_invalid [where P = P, OF Invalid] calls_def next_world_def
        record_admitted_def)
next
  case (Valid b' v)
  with b z show ?thesis by simp
qed

section \<open>Failures of the cache store\<close>

lemma generate_resolve_read_failure:
  "fst (generate_resolve P (e\<lparr>kv_get_fails := True\<rparr>) w v) =
     fst (generate_resolve P (e\<lparr>kv_get_fails := False\<rparr>) (w\<lparr>cache := Map.empty\<rparr>) v) \<and>
   snd (snd (generate_resolve P (e\<lparr>kv_get_fails := True\<rparr>) w v)) =
     snd (snd (generate_resolve P (e\<lparr>kv_get_fails := False\<rparr>) (w\<lparr>cache := Map.empty\<rparr>) v))"
  by (simp add: generate_resolve_def cache_lookup_def kv_get_def Let_def
      split: completion.splits option.splits)

lemma generate_resolve_write_failure:
  "fst (generate_resolve P (e\<lparr>kv_set_fails := True\<rparr>) w v) =
     fst (generate_resolve P (e\<lparr>kv_set_fails := False\<rparr>) w v) \<and>
   snd (snd (generate_resolve P (e\<lparr>kv_set_fails := True\<rparr>) w v)) =
     snd (snd (generate_resolve P (e\<lparr>kv_set_fails := False\<rparr>) w v))"
  by (simp add: generate_resolve_def cache_lookup_def Let_def
      split: completion.splits option.splits)

lemma inspect_resolve_read_failure:
  "fst (inspect_resolve P (e\<lparr>kv_get_fails := True\<rparr>) w v) =
     fst (inspect_resolve P (e\<lparr>kv_get_fails := False\<rparr>) (w\<lparr>cache := Map.empty\<rparr>) v) \<and>
   snd (snd (inspect_resolve P (e\<lparr>kv_get_fails := True\<rparr>) w v)) =
     snd (snd (inspect_resolve P (e\<lparr>kv_get_fails := False\<rparr>) (w\<lparr>cache := Map.empty\<rparr>) v))"
  by (simp add: inspect_resolve_def cache_lookup_def kv_get_def Let_def
      split: completion.splits option.splits)

lemma inspect_resolve_write_failure:
  "fst (inspect_resolve P (e\<lparr>kv_set_fails := True\<rparr>) w v) =
     fst (inspect_resolve P (e\<lparr>kv_set_fails := False\<rparr>) w v) \<and>
   snd (snd (inspect_resolve P (e\<lparr>kv_set_fails := True\<rparr>) w v)) =
     snd (snd (inspect_resolve P (e\<lparr>kv_set_fails := False\<rparr>) w v))"
  by (simp add: inspect_resolve_def cache_lookup_def Let_def
      split: completion.splits option.splits)

lemma reply_finish:
  "reply (finish a evs) = (case fst a of Inl t \<Rightarrow> generate_catch (Other t) | Inr r \<Rightarrow> r)"
  by (simp add: finish_def reply_def split: prod.splits sum.splits)

lemma calls_finish: "calls (finish a evs) = evs @ snd (snd a)"
  by (simp add: finish_def calls_def split: prod.splits sum.splits)

lemma next_world_finish: "next_world (finish a evs) = fst (snd a)"
  by (simp add: finish_def next_world_def split: prod.splits sum.splits)

lemma reply_inspect_finish:
  "reply (inspect_finish e a evs) = (case fst a of Inl t \<Rightarrow> inspect_catch e t | Inr r \<Rightarrow> r)"
  by (simp add: inspect_finish_def reply_def split: prod.splits sum.splits)

lemma calls_inspect_finish: "calls (inspect_finish e a evs) = evs @ snd (snd a)"
  by (simp add: inspect_finish_def calls_def split: prod.splits sum.splits)

lemma next_world_inspect_finish: "next_world (inspect_finish e a evs) = fst (snd a)"
  by (simp add: inspect_finish_def next_world_def split: prod.splits sum.splits)

lemma used_cache_update [simp]: "used (w\<lparr>cache := c\<rparr>) key t = used w key t"
  by (simp add: used_def)

lemma record_admitted_cache_update:
  "record_admitted (w\<lparr>cache := c\<rparr>) key t = (record_admitted w key t)\<lparr>cache := c\<rparr>"
  by (simp add: record_admitted_def)

lemma generate_read_failure:
  "reply (generate_POST P (e\<lparr>kv_get_fails := True\<rparr>) rq w) =
     reply (generate_POST P (e\<lparr>kv_get_fails := False\<rparr>) rq (w\<lparr>cache := Map.empty\<rparr>)) \<and>
   calls (generate_POST P (e\<lparr>kv_get_fails := True\<rparr>) rq w) =
     calls (generate_POST P (e\<lparr>kv_get_fails := False\<rparr>) rq (w\<lparr>cache := Map.empty\<rparr>))"
proof (cases rule: generate_POST_cases [where e = e and w = w and rq = rq and P = P])
  case (Limiter_Fails t)
  then show ?thesis by (simp add: generate_POST_limiter_fails reply_def calls_def)
next
  case Rejected
  then show ?thesis by (simp add: generate_POST_rejected reply_def calls_def used_def)
next
  case Bad_Json
  then show ?thesis by (simp add: generate_POST_bad_json reply_def calls_def)
next
  case (Invalid b issues)
  then show ?thesis by (simp add: generate_POST_invalid [where P = P] reply_def calls_def)
next
  case (Valid b v)
  then show ?thesis
    using generate_resolve_read_failure [of P e "record_admitted w (generate_key rq) (now e)" v]
    by (simp add: generate_POST_valid [where P = P] reply_finish calls_finish
        record_admitted_cache_update)
qed

lemma generate_write_failure:
  "reply (generate_POST P (e\<lparr>kv_set_fails := True\<rparr>) rq w) =
     reply (generate_POST P (e\<lparr>kv_set_fails := False\<rparr>) rq w) \<and>
   calls (generate_POST P (e\<lparr>kv_set_fails := True\<rparr>) rq w) =
     calls (generate_POST P (e\<lparr>kv_set_fails := False\<rparr>) rq w)"
proof (cases rule: generate_POST_cases [where e = e and w = w and rq = rq and P = P])
  case (Limiter_Fails t)
  then show ?thesis by (simp add: generate_POST_limiter_fails reply_def calls_def)
next
  case Rejected
  then show ?thesis by (simp add: generate_POST_rejected reply_def calls_def)
next
  case Bad_Json
  then show ?thesis by (simp add: generate_POST_bad_json reply_def calls_def)
next
  case (Invalid b issues)
  then show ?thesis by (simp add: generate_POST_invalid [where P = P] reply_def calls_def)
next
  case (Valid b v)
  then show ?thesis
    using generate_resolve_write_failure [of P e "record_admitted w (generate_key rq) (now e)" v]
    by (simp add: generate_POST_valid [where P = P] reply_finish calls_finish)
qed

lemma inspect_catch_env [simp]:
  "inspect_catch (e\<lparr>kv_get_fails := g\<rparr>) t = inspect_catch e t"
  "inspect_catch (e\<lparr>kv_set_fails := g\<rparr>) t = inspect_catch e t"
  by (simp_all add: inspect_catch_def split: thrown.splits)

lemma inspect_read_failure:
  "reply (inspect_POST P (e\<lparr>kv_get_fails := True\<rparr>) rq w) =
     reply (inspect_POST P (e\<lparr>kv_get_fails := False\<rparr>) rq (w\<lparr>cache := Map.empty\<rparr>)) \<and>
   calls (inspect_POST P (e\<lparr>kv_get_fails := True\<rparr>) rq w) =
     calls (inspect_POST P (e\<lparr>kv_get_fails := False\<rparr>) rq (w\<lparr>cache := Map.empty\<rparr>))"
proof (cases rule: inspect_POST_cases [where e = e and w = w and rq = rq and P = P])
  case (Limiter_Fails t)
  then show ?thesis by (simp add: inspect_POST_limiter_fails reply_def calls_def)
next
  case Rejected
  then show ?thesis by (simp add: inspect_POST_rejected reply_def calls_def used_def)
next
  case Bad_Json
  then show ?thesis by (simp add: inspect_POST_bad_json reply_def calls_def)
next
  case (Invalid b issues)
  then show ?thesis by (simp add: inspect_POST_invalid [where P = P] reply_def calls_def)
next
  case (Valid b v)
  then show ?thesis
    using inspect_resolve_read_failure [of P e "record_admitted w (inspect_key rq) (now e)" v]
    by (simp add: inspect_POST_valid [where P = P] reply_inspect_finish calls_inspect_finish
        record_admitted_cache_update split: sum.splits)
qed

lemma inspect_write_failure:
  "reply (inspect_POST P (e\<lparr>kv_set_fails := True\<rparr>) rq w) =
     reply (inspect_POST P (e\<lparr>kv_set_fails := False\<rparr>) rq w) \<and>
   calls (inspect_POST P (e\<lparr>kv_set_fails := True\<rparr>) rq w) =
     calls (inspect_POST P (e\<lparr>kv_set_fails := False\<rparr>) rq w)"
proof (cases rule: inspect_POST_cases [where e = e and w = w and rq = rq and P = P])
  case (Limiter_Fails t)
  then show ?thesis by (simp add: inspect_POST_limiter_fails reply_def calls_def)
next
  case Rejected
  then show ?thesis by (simp add: inspect_POST_rejected reply_def calls_def)
next
  case Bad_Json
  then show ?thesis by (simp add: inspect_POST_bad_json reply_def calls_def)
next
  case (Invalid b issues)
  then show ?thesis by (simp add: inspect_POST_invalid [where P = P] reply_def calls_def)
next
  case (Valid b v)
  then show ?thesis
    using inspect_resolve_write_failure [of P e "record_admitted w (inspect_key rq) (now e)" v]
    by (simp add: inspect_POST_valid [where P = P] reply_inspect_finish calls_inspect_finish
        split: sum.splits)
qed

lemma generate_read_failure_reaches_provider:
  assumes "kv_get_fails e" "generate_admits e rq w" "P (body_text rq) = Some b"
    "zod_object_parse GenerateAdSchema b = Inr v"
  shows "list_ex calls_provider (calls (generate_POST P e rq w))"
  using assms
  by (simp add: generate_admits_def generate_POST_valid [where P = P] calls_finish
      generate_resolve_def cache_lookup_def Let_def split: completion.splits option.splits)

lemma inspect_read_failure_reaches_provider:
  assumes "kv_get_fails e" "inspect_admits e rq w" "P (body_text rq) = Some b"
    "zod_object_parse InspectAdSchema b = Inr v"
  shows "list_ex calls_provider (calls (inspect_POST P e rq w))"
  using assms
  by (simp add: inspect_admits_def inspect_POST_valid [where P = P] calls_inspect_finish
      inspect_resolve_def cache_lookup_def Let_def split: completion.splits option.splits)

section \<open>Server errors\<close>

lemma generate_catch_other:
  "\<exists>m c. generate_catch (Other t) = \<lparr>status = 500, body = JObj [(''error'', JStr m), (''code'', JStr c)]\<rparr>"
  by (cases t) (simp_all add: generate_catch_def)

lemma inspect_catch_production:
  "\<not> development e \<Longrightarrow>
   \<exists>m c. inspect_catch e t = \<lparr>status = 500, body = JObj [(''error'', JStr m), (''code'', JStr c)]\<rparr>"
  by (cases t) (simp_all add: inspect_catch_def opt_def)

lemma generate_500_body:
  assumes s: "status (reply (generate_POST P e rq w)) = 500"
  shows "\<exists>m c. body (reply (generate_POST P e rq w)) = JObj [(''error'', JStr m), (''code'', JStr c)]"
proof (cases rule: generate_POST_cases [where e = e and w = w and rq = rq and P = P])
  case (Limiter_Fails t)
  then show ?thesis
    using generate_catch_other [of t] by (auto simp add: generate_POST_limiter_fails reply_def)
next
  case Rejected
  with s show ?thesis by (simp add: generate_POST_rejected reply_def)
next
  case Bad_Json
  then show ?thesis by (simp add: generate_POST_bad_json reply_def)
next
  case (Invalid b issues)
  with s show ?thesis by (simp add: generate_POST_invalid [where P = P] reply_def)
next
  case (Valid b v)
  note post = generate_POST_valid [where P = P, OF Valid]
  let ?w = "record_admitted w (generate_key rq) (now e)"
  show ?thesis
  proof (cases rule: generate_resolve_cases [where e = e and w = ?w and v = v and P = P])
    case Hit
    with s post show ?thesis by (simp add: generate_resolve_hit reply_finish)
  next
    case (Rejects msg)
    with post show ?thesis
      by (simp add: generate_resolve_rejects reply_finish generate_catch_def)
  next
    case (Empty c usage)
    with post show ?thesis
      by (simp add: generate_resolve_empty [where P = P, OF Empty] reply_finish generate_catch_def)
  next
    case (Malformed content usage)
    with post show ?thesis
      by (simp add: generate_resolve_malformed [where P = P, OF Malformed] reply_finish
          generate_catch_def)
  next
    case (Fresh content usage ads)
    with s post show ?thesis
      by (simp add: generate_resolve_fresh [where P = P, OF Fresh] reply_finish)
  qed
qed

lemma inspect_500_body:
  assumes s: "status (reply (inspect_POST P e rq w)) = 500" and d: "\<not> development e"
  shows "\<exists>m c. body (reply (inspect_POST P e rq w)) = JObj [(''error'', JStr m), (''code'', JStr c)]"
proof (cases rule: inspect_POST_cases [where e = e and w = w and rq = rq and P = P])
  case (Limiter_Fails t)
  then show ?thesis
    using inspect_catch_production [OF d, of t]
    by (auto simp add: inspect_POST_limiter_fails reply_def)
next
  case Rejected
  with s show ?thesis by (simp add: inspect_POST_rejected reply_def)
next
  case Bad_Json
  with d show ?thesis by (simp add: inspect_POST_bad_json reply_def inspect_catch_def opt_def)
next
  case (Invalid b issues)
  with s show ?thesis by (simp add: inspect_POST_invalid [where P = P] reply_def)
next
  case (Valid b v)
  note post = inspect_POST_valid [where P = P, OF Valid]
  let ?w = "record_admitted w (inspect_key rq) (now e)"
  show ?thesis
  proof (cases rule: inspect_resolve_cases [where e = e and w = ?w and v = v and P = P])
    case Hit
    with s post show ?thesis by (simp add: inspect_resolve_hit reply_inspect_finish)
  next
    case (Rejects msg)
    with post d show ?thesis
      by (simp add: inspect_resolve_rejects reply_inspect_finish inspect_catch_def opt_def)
  next
    case (Empty c usage)
    with post d show ?thesis
      by (simp add: inspect_resolve_empty [where P = P, OF Empty] reply_inspect_finish
          inspect_catch_def opt_def)
  next
    case (Malformed content usage)
    with post d show ?thesis
      by (simp add: inspect_resolve_malformed [where P = P, OF Malformed] reply_inspect_finish
          inspect_catch_def opt_def)
  next
    case (Fresh content usage analysis)
    with s post show ?thesis
      by (simp add: inspect_resolve_fresh [where P = P, OF Fresh] reply_inspect_finish)
  qed
qed

lemma generate_provider_failure:
  assumes p: "provider e = Rejects msg"
    and c: "list_ex calls_provider (calls (generate_POST P e rq w))"
  shows "reply (generate_POST P e rq w) =
     \<lparr>status = 500,
      body = JObj [(''error'', JStr (''OpenAI request failed: '' @ msg)), (''code'', JStr ''Error'')]\<rparr>"
proof (cases rule: generate_POST_cases [where e = e and w = w and rq = rq and P = P])
  case (Limiter_Fails t)
  with c show ?thesis by (simp add: generate_POST_limiter_fails calls_def)
next
  case Rejected
  with c show ?thesis by (simp add: generate_POST_rejected calls_def)
next
  case Bad_Json
  with c show ?thesis by (simp add: generate_POST_bad_json calls_def)
next
  case (Invalid b issues)
  with c show ?thesis by (simp add: generate_POST_invalid [where P = P] calls_def)
next
  case (Valid b v)
  note post = generate_POST_valid [where P = P, OF Valid]
  show ?thesis
  proof (cases "truthy (cache_lookup e (record_admitted w (generate_key rq) (now e)) (generate_cacheKey v))")
    case True
    with c post show ?thesis by (simp add: generate_resolve_hit calls_finish)
  next
    case False
    with p post show ?thesis
      by (simp add: generate_resolve_rejects reply_finish generate_catch_def)
  qed
qed

lemma inspect_provider_failure:
  assumes p: "provider e = Rejects msg"
    and c: "list_ex calls_provider (calls (inspect_POST P e rq w))"
  shows "reply (inspect_POST P e rq w) = inspect_catch e (Thrown_Error ''Error'' (''Analysis failed: '' @ msg))"
proof (cases rule: inspect_POST_cases [where e = e and w = w and rq = rq and P = P])
  case (Limiter_Fails t)
  with c show ?thesis by (simp add: inspect_POST_limiter_fails calls_def)
next
  case Rejected
  with c show ?thesis by (simp add: inspect_POST_rejected calls_def)
next
  case Bad_Json
  with c show ?thesis by (simp add: inspect_POST_bad_json calls_def)
next
  case (Invalid b issues)
  with c show ?thesis by (simp add: inspect_POST_invalid [where P = P] calls_def)
next
  case (Valid b v)
  note post = inspect_POST_valid [where P = P, OF Valid]
  show ?thesis
  proof (cases "truthy (cache_lookup e (record_admitted w (inspect_key rq) (now e)) (inspect_cacheKey v))")
    case True
    with c post show ?thesis by (simp add: inspect_resolve_hit calls_inspect_finish)
  next
    case False
    with p post show ?thesis
      by (simp add: inspect_resolve_rejects reply_inspect_finish)
  qed
qed

lemma status_inspect_catch [simp]: "status (inspect_catch e t) = 500"
  by (cases t) (simp_all add: inspect_catch_def)

section \<open>The order of the calls\<close>

lemma generate_limit_first:
  "take 1 (calls (generate_POST P e rq w)) = [Ratelimit_Limit (generate_key rq)]"
proof (cases rule: generate_POST_cases [where e = e and w = w and rq = rq and P = P])
  case (Limiter_Fails t)
  then show ?thesis by (simp add: generate_POST_limiter_fails calls_def)
next
  case Rejected
  then show ?thesis by (simp add: generate_POST_rejected calls_def)
next
  case Bad_Json
  then show ?thesis by (simp add: generate_POST_bad_json calls_def)
next
  case (Invalid b issues)
  then show ?thesis by (simp add: generate_POST_invalid [where P = P] calls_def)
next
  case (Valid b v)
  then show ?thesis by (simp add: generate_POST_valid [where P = P] calls_finish)
qed

lemma inspect_limit_first:
  "take 1 (calls (inspect_POST P e rq w)) = [Ratelimit_Limit (inspect_key rq)]"
proof (cases rule: inspect_POST_cases [where e = e and w = w and rq = rq and P = P])
  case (Limiter_Fails t)
  then show ?thesis by (simp add: inspect_POST_limiter_fails calls_def)
next
  case Rejected
  then show ?thesis by (simp add: inspect_POST_rejected calls_def)
next
  case Bad_Json
  then show ?thesis by (simp add: inspect_POST_bad_json calls_def)
next
  case (Invalid b issues)
  then show ?thesis by (simp add: inspect_POST_invalid [where P = P] calls_def)
next
  case (Valid b v)
  then show ?thesis by (simp add: inspect_POST_valid [where P = P] calls_inspect_finish)
qed

lemma in_window_now: "in_window t t"
  by (simp add: in_window_def window_def)

lemma used_record_admitted: "used (record_admitted w key t) key t = Suc (used w key t)"
  by (simp add: used_def record_admitted_def in_window_now)

lemma generate_failed_request_consumes:
  assumes a: "generate_admits e rq w"
    and f: "P (body_text rq) = None \<or>
            (\<exists>b issues. P (body_text rq) = Some b \<and> zod_object_parse GenerateAdSchema b = Inl issues)"
  shows "calls (generate_POST P e rq w) = [Ratelimit_Limit (generate_key rq), Request_Json] \<and>
         status (reply (generate_POST P e rq w)) \<in> {400, 500} \<and>
         used (next_world (generate_POST P e rq w)) (generate_key rq) (now e) =
           Suc (used w (generate_key rq) (now e))"
proof -
  from a have up: "limit_throws e = None" and room: "used w (generate_key rq) (now e) < tokens"
    by (simp_all add: generate_admits_def)
  from f show ?thesis
  proof
    assume "P (body_text rq) = None"
    with up room show ?thesis
      by (simp add: generate_POST_bad_json calls_def reply_def next_world_def used_record_admitted)
  next
    assume "\<exists>b issues. P (body_text rq) = Some b \<and> zod_object_parse GenerateAdSchema b = Inl issues"
    then obtain b issues where "P (body_text rq) = Some b"
      "zod_object_parse GenerateAdSchema b = Inl issues" by blast
    with up room show ?thesis
      by (simp add: generate_POST_invalid [where P = P] calls_def reply_def next_world_def
          used_record_admitted)
  qed
qed

lemma inspect_failed_request_consumes:
  assumes a: "inspect_admits e rq w"
    and f: "P (body_text rq) = None \<or>
            (\<exists>b issues. P (body_text rq) = Some b \<and> zod_object_parse InspectAdSchema b = Inl issues)"
  shows "calls (inspect_POST P e rq w) = [Ratelimit_Limit (inspect_key rq), Request_Json] \<and>
         status (reply (inspect_POST P e rq w)) \<in> {400, 500} \<and>
         used (next_world (inspect_POST P e rq w)) (inspect_key rq) (now e) =
           Suc (used w (inspect_key rq) (now e))"
proof -
  from a have up: "limit_throws e = None" and room: "used w (inspect_key rq) (now e) < tokens"
    by (simp_all add: inspect_admits_def)
  from f show ?thesis
  proof
    assume "P (body_text rq) = None"
    with up room show ?thesis
      by (simp add: inspect_POST_bad_json calls_def reply_def next_world_def used_record_admitted)
  next
    assume "\<exists>b issues. P (body_text rq) = Some b \<and> zod_object_parse InspectAdSchema b = Inl issues"
    then obtain b issues where "P (body_text rq) = Some b"
      "zod_object_parse InspectAdSchema b = Inl issues" by blast
    with up room show ?thesis
      by (simp add: inspect_POST_invalid [where P = P] calls_def reply_def next_world_def
          used_record_admitted)
  qed
qed

lemma generate_unparseable:
  assumes "generate_admits e rq w" "P (body_text rq) = None"
  shows "reply (generate_POST P e rq w) =
     \<lparr>status = 500, body = JObj [(''error'', JStr ''Invalid JSON payload''), (''code'', JStr ''Error'')]\<rparr>"
  using assms by (simp add: generate_admits_def generate_POST_bad_json reply_def)

lemma inspect_unparseable:
  assumes "inspect_admits e rq w" "P (body_text rq) = None"
  shows "reply (inspect_POST P e rq w) =
     \<lparr>status = 500,
      body = JObj ([(''error'', JStr ''Invalid JSON payload''), (''code'', JStr ''Error'')]
               @ opt ''stack'' (if development e then map_option JStr (error_stack e) else None))\<rparr>"
  using assms by (simp add: inspect_admits_def inspect_POST_bad_json reply_def inspect_catch_def)

lemma not_carries_error_code:
  "\<not> carries_field_paths (JObj ([(''error'', m), (''code'', c)] @ opt ''stack'' s))"
  by (simp add: carries_field_paths_def opt_def split: option.splits)

section \<open>Issues name the offending field\<close>

lemma failing_check_reports:
  "\<not> list_all (\<lambda>c. meets c s) checks \<Longrightarrow> concat (map (check_string s) checks) \<noteq> []"
proof (induction checks)
  case Nil
  then show ?case by simp
next
  case (Cons c checks)
  then show ?case by (cases c) (auto split: if_splits)
qed

lemma zod_parse_offends: "offends t x \<Longrightarrow> \<exists>m ms. zod_parse t x = Inl (m # ms)"
proof (induction t x rule: zod_parse.induct)
  case (2 checks s)
  define found where "found = concat (map (check_string s) checks)"
  from 2 have "found \<noteq> []"
    unfolding found_def by (intro failing_check_reports) simp
  then obtain m ms where "found = m # ms" by (cases found) auto
  moreover have "zod_parse (ZString checks) (Some (JStr s)) =
      (if found = [] then Inr (Some s) else Inl found)"
    by (simp add: found_def Let_def)
  ultimately show ?case by simp
qed simp_all

lemma zod_object_parse_offends:
  assumes "(f, t) \<in> set shape" "zod_parse t (map_of ps f) = Inl (m # ms)"
  shows "\<exists>issues. zod_object_parse shape (JObj ps) = Inl issues \<and>
                  \<lparr>path = [f], message = m\<rparr> \<in> set issues"
proof -
  define results where "results = map (\<lambda>(k, t). (k, zod_parse t (map_of ps k))) shape"
  define issues where "issues = concat (map issues_of results)"
  from assms have "(f, Inl (m # ms)) \<in> set results"
    unfolding results_def by force
  moreover have "\<lparr>path = [f], message = m\<rparr> \<in> set (issues_of (f, Inl (m # ms)))"
    by (simp add: issues_of_def)
  ultimately have mem: "\<lparr>path = [f], message = m\<rparr> \<in> set issues"
    unfolding issues_def by (metis (no_types, lifting) set_concat UN_I image_eqI list.set_map)
  then have "issues \<noteq> []" by auto
  moreover have "zod_object_parse shape (JObj ps) =
      (if issues = [] then Inr (concat (map output_of results)) else Inl issues)"
    by (simp add: zod_object_parse_def Let_def issues_def results_def)
  ultimately show ?thesis using mem by simp
qed

lemma names_field_issue:
  "\<lparr>path = [f], message = m\<rparr> \<in> set issues \<Longrightarrow>
   names_field f (JObj [(''error'', JStr ''Validation failed''), (''issues'', JArr (map issue_json issues))])"
  by (force simp add: names_field_def list_ex_iff issue_json_def)

lemma generate_offending_field:
  assumes a: "generate_admits e rq w" and b: "P (body_text rq) = Some (JObj ps)"
    and f: "(f, t) \<in> set GenerateAdSchema" and o: "offends t (map_of ps f)"
  shows "status (reply (generate_POST P e rq w)) = 400 \<and>
         names_field f (body (reply (generate_POST P e rq w)))"
proof -
  from o obtain m ms where "zod_parse t (map_of ps f) = Inl (m # ms)"
    using zod_parse_offends by blast
  with f obtain issues where z: "zod_object_parse GenerateAdSchema (JObj ps) = Inl issues"
    and i: "\<lparr>path = [f], message = m\<rparr> \<in> set issues"
    using zod_object_parse_offends by blast
  from a b z show ?thesis
    using names_field_issue [OF i]
    by (simp add: generate_admits_def generate_POST_invalid [where P = P] reply_def)
qed

lemma inspect_offending_field:
  assumes a: "inspect_admits e rq w" and b: "P (body_text rq) = Some (JObj ps)"
    and f: "(f, t) \<in> set InspectAdSchema" and o: "offends t (map_of ps f)"
  shows "status (reply (inspect_POST P e rq w)) = 400 \<and>
         names_field f (body (reply (inspect_POST P e rq w)))"
proof -
  from o obtain m ms where "zod_parse t (map_of ps f) = Inl (m # ms)"
    using zod_parse_offends by blast
  with f obtain issues where z: "zod_object_parse InspectAdSchema (JObj ps) = Inl issues"
    and i: "\<lparr>path = [f], message = m\<rparr> \<in> set issues"
    using zod_object_parse_offends by blast
  from a b z show ?thesis
    using names_field_issue [OF i]
    by (simp add: inspect_admits_def inspect_POST_invalid [where P = P] reply_def)
qed

text \<open>
  A body that is JSON but not an object (\<^verbatim>\<open>null\<close>, an array, a number) has no fields:
  the one issue it raises has the empty path.
\<close>

lemma non_object_body:
  assumes "P (body_text rq) = Some b" "\<forall>ps. b \<noteq> JObj ps"
  shows "(generate_admits e rq w \<longrightarrow>
            reply (generate_POST P e rq w) =
              \<lparr>status = 400,
               body = JObj [(''error'', JStr ''Validation failed''),
                 (''issues'', JArr [JObj [(''path'', JStr []),
                    (''message'', JStr (''Expected object, received '' @ typeof b))]])]\<rparr>) \<and>
         (inspect_admits e rq w \<longrightarrow>
            reply (inspect_POST P e rq w) =
              \<lparr>status = 400,
               body = JObj [(''error'', JStr ''Validation failed''),
                 (''issues'', JArr [JObj [(''path'', JStr []),
                    (''message'', JStr (''Expected object, received '' @ typeof b))]])]\<rparr>)"
proof -
  from assms(2) have "zod_object_parse shape b =
      Inl [\<lparr>path = [], message = ''Expected object, received '' @ typeof b\<rparr>]" for shape
    by (cases b) (simp_all add: zod_object_parse_def)
  with assms(1) show ?thesis
    by (simp add: generate_admits_def inspect_admits_def generate_POST_invalid [where P = P]
        inspect_POST_invalid [where P = P] reply_def issue_json_def)
qed

section \<open>The quota\<close>

lemma oldest_mem: "xs \<noteq> [] \<Longrightarrow> oldest xs \<in> set xs"
  by (induction xs rule: oldest.induct) (auto simp add: min_def)

lemma reset_in_future:
  assumes "\<not> used w key t < tokens"
  shows "t < oldest (filter (in_window t) (limiter w key)) + window"
proof -
  let ?recent = "filter (in_window t) (limiter w key)"
  from assms have "?recent \<noteq> []" by (auto simp add: used_def tokens_def)
  then have "oldest ?recent \<in> set ?recent" by (rule oldest_mem)
  then have "in_window t (oldest ?recent)" by simp
  then show ?thesis by (simp add: in_window_def)
qed

lemma in_window_earlier: "t \<le> t' \<Longrightarrow> in_window t' s \<Longrightarrow> in_window t s"
  by (simp add: in_window_def)

lemma filter_in_window_later:
  "t \<le> t' \<Longrightarrow>
   filter (\<lambda>s. in_window t s \<and> in_window t' s) stamps = filter (in_window t') stamps"
  by (induction stamps) (auto dest: in_window_earlier)

lemma used_later: "t \<le> t' \<Longrightarrow> used w key t' \<le> used w key t"
proof -
  assume le: "t \<le> t'"
  have "length (filter (in_window t') (filter (in_window t) (limiter w key)))
          \<le> length (filter (in_window t) (limiter w key))"
    by (rule length_filter_le)
  with le show ?thesis by (simp add: used_def filter_in_window_later)
qed

lemma used_record_admitted_later:
  "t \<le> t' \<Longrightarrow> used (record_admitted w key t) key t' = (if in_window t' t then 1 else 0) + used w key t'"
  by (simp add: used_def record_admitted_def filter_in_window_later)

lemma limiter_cache_store [simp]: "limiter (cache_store e w k v ex) = limiter w"
  by (simp add: cache_store_def)

lemma generate_resolve_limiter: "limiter (fst (snd (generate_resolve P e w v))) = limiter w"
  by (simp add: generate_resolve_def Let_def split: completion.splits option.splits)

lemma inspect_resolve_limiter: "limiter (fst (snd (inspect_resolve P e w v))) = limiter w"
  by (simp add: inspect_resolve_def Let_def split: completion.splits option.splits)

lemma generate_admitted:
  assumes a: "generate_admits e rq w"
  shows "status (reply (generate_POST P e rq w)) \<noteq> 429 \<and>
         limiter (next_world (generate_POST P e rq w)) =
           limiter (record_admitted w (generate_key rq) (now e))"
proof -
  from a have up: "limit_throws e = None" and room: "used w (generate_key rq) (now e) < tokens"
    by (simp_all add: generate_admits_def)
  show ?thesis
  proof (cases rule: generate_POST_cases [where e = e and w = w and rq = rq and P = P])
    case (Limiter_Fails t)
    with up show ?thesis by simp
  next
    case Rejected
    with room show ?thesis by simp
  next
    case Bad_Json
    then show ?thesis by (simp add: generate_POST_bad_json reply_def next_world_def)
  next
    case (Invalid b issues)
    then show ?thesis by (simp add: generate_POST_invalid [where P = P] reply_def next_world_def)
  next
    case (Valid b v)
    note post = generate_POST_valid [where P = P, OF Valid]
    let ?w = "record_admitted w (generate_key rq) (now e)"
    have "status (reply (generate_POST P e rq w)) \<noteq> 429"
    proof (cases rule: generate_resolve_cases [where e = e and w = ?w and v = v and P = P])
      case Hit
      with post show ?thesis by (simp add: generate_resolve_hit reply_finish)
    next
      case (Rejects msg)
      with post show ?thesis by (simp add: generate_resolve_rejects reply_finish generate_catch_def)
    next
      case (Empty c usage)
      with post show ?thesis
        by (simp add: generate_resolve_empty [where P = P, OF Empty] reply_finish generate_catch_def)
    next
      case (Malformed content usage)
      with post show ?thesis
        by (simp add: generate_resolve_malformed [where P = P, OF Malformed] reply_finish
            generate_catch_def)
    next
      case (Fresh content usage ads)
      with post show ?thesis
        by (simp add: generate_resolve_fresh [where P = P, OF Fresh] reply_finish)
    qed
    with post show ?thesis by (simp add: next_world_finish generate_resolve_limiter)
  qed
qed

lemma inspect_admitted:
  assumes a: "inspect_admits e rq w"
  shows "status (reply (inspect_POST P e rq w)) \<noteq> 429 \<and>
         limiter (next_world (inspect_POST P e rq w)) =
           limiter (record_admitted w (inspect_key rq) (now e))"
proof -
  from a have up: "limit_throws e = None" and room: "used w (inspect_key rq) (now e) < tokens"
    by (simp_all add: inspect_admits_def)
  show ?thesis
  proof (cases rule: inspect_POST_cases [where e = e and w = w and rq = rq and P = P])
    case (Limiter_Fails t)
    with up show ?thesis by simp
  next
    case Rejected
    with room show ?thesis by simp
  next
    case Bad_Json
    then show ?thesis by (simp add: inspect_POST_bad_json reply_def next_world_def)
  next
    case (Invalid b issues)
    then show ?thesis by (simp add: inspect_POST_invalid [where P = P] reply_def next_world_def)
  next
    case (Valid b v)
    note post = inspect_POST_valid [where P = P, OF Valid]
    let ?w = "record_admitted w (inspect_key rq) (now e)"
    have "status (reply (inspect_POST P e rq w)) \<noteq> 429"
    proof (cases rule: inspect_resolve_cases [where e = e and w = ?w and v = v and P = P])
      case Hit
      with post show ?thesis by (simp add: inspect_resolve_hit reply_inspect_finish)
    next
      case (Rejects msg)
      with post show ?thesis by (simp add: inspect_resolve_rejects reply_inspect_finish)
    next
      case (Empty c usage)
      with post show ?thesis
        by (simp add: inspect_resolve_empty [where P = P, OF Empty] reply_inspect_finish)
    next
      case (Malformed content usage)
      with post show ?thesis
        by (simp add: inspect_resolve_malformed [where P = P, OF Malformed] reply_inspect_finish)
    next
      case (Fresh content usage analysis)
      with post show ?thesis
        by (simp add: inspect_resolve_fresh [where P = P, OF Fresh] reply_inspect_finish)
    qed
    with post show ?thesis by (simp add: next_world_inspect_finish inspect_resolve_limiter)
  qed
qed

lemma generate_over_quota:
  assumes "limit_throws e = None" "\<not> used w (generate_key rq) (now e) < tokens"
  shows "status (reply (generate_POST P e rq w)) = 429 \<and>
         (\<exists>reset. property (body (reply (generate_POST P e rq w))) ''reset'' = Value (Some (JDate reset)) \<and>
                   now e < reset)"
  using assms reset_in_future [of w "generate_key rq" "now e"]
  by (simp add: generate_POST_rejected reply_def)

lemma inspect_over_quota:
  assumes "limit_throws e = None" "\<not> used w (inspect_key rq) (now e) < tokens"
  shows "status (reply (inspect_POST P e rq w)) = 429 \<and>
         (\<exists>reset. property (body (reply (inspect_POST P e rq w))) ''reset'' = Value (Some (JDate reset)) \<and>
                   now e < reset)"
  using assms reset_in_future [of w "inspect_key rq" "now e"]
  by (simp add: inspect_POST_rejected reply_def)

lemma keys_differ: "generate_key rq \<noteq> inspect_key rq'"
  by (simp add: generate_key_def inspect_key_def)

lemma generate_limiter_frame:
  "key \<noteq> generate_key rq \<Longrightarrow> limiter (next_world (generate_POST P e rq w)) key = limiter w key"
proof (cases rule: generate_POST_cases [where e = e and w = w and rq = rq and P = P])
  case (Limiter_Fails t)
  then show ?thesis by (simp add: generate_POST_limiter_fails next_world_def)
next
  case Rejected
  moreover assume "key \<noteq> generate_key rq"
  ultimately show ?thesis by (simp add: generate_POST_rejected next_world_def record_rejected_def)
next
  case Bad_Json
  moreover assume "key \<noteq> generate_key rq"
  ultimately show ?thesis by (simp add: generate_POST_bad_json next_world_def record_admitted_def)
next
  case (Invalid b issues)
  moreover assume "key \<noteq> generate_key rq"
  ultimately show ?thesis
    by (simp add: generate_POST_invalid [where P = P] next_world_def record_admitted_def)
next
  case (Valid b v)
  moreover assume "key \<noteq> generate_key rq"
  ultimately show ?thesis
    by (simp add: generate_POST_valid [where P = P] next_world_finish generate_resolve_limiter
        record_admitted_def)
qed

lemma inspect_limiter_frame:
  "key \<noteq> inspect_key rq \<Longrightarrow> limiter (next_world (inspect_POST P e rq w)) key = limiter w key"
proof (cases rule: inspect_POST_cases [where e = e and w = w and rq = rq and P = P])
  case (Limiter_Fails t)
  then show ?thesis by (simp add: inspect_POST_limiter_fails next_world_def)
next
  case Rejected
  moreover assume "key \<noteq> inspect_key rq"
  ultimately show ?thesis by (simp add: inspect_POST_rejected next_world_def record_rejected_def)
next
  case Bad_Json
  moreover assume "key \<noteq> inspect_key rq"
  ultimately show ?thesis by (simp add: inspect_POST_bad_json next_world_def record_admitted_def)
next
  case (Invalid b issues)
  moreover assume "key \<noteq> inspect_key rq"
  ultimately show ?thesis
    by (simp add: inspect_POST_invalid [where P = P] next_world_def record_admitted_def)
next
  case (Valid b v)
  moreover assume "key \<noteq> inspect_key rq"
  ultimately show ?thesis
    by (simp add: inspect_POST_valid [where P = P] next_world_inspect_finish inspect_resolve_limiter
        record_admitted_def)
qed

lemma used_cong: "limiter w = limiter w' \<Longrightarrow> used w key t = used w' key t"
  by (simp add: used_def)

lemma quota_step:
  assumes inv: "\<And>t. lo \<le> t \<Longrightarrow> t \<le> hi \<Longrightarrow> used w k t = n"
    and s: "lo \<le> s" "hi < s + window"
    and w': "limiter w' = limiter (record_admitted w k s)"
    and t: "s \<le> t" "t \<le> hi"
  shows "used w' k t = Suc n"
  using inv [of t] s t
  by (simp add: used_cong [OF w'] used_record_admitted_later in_window_def)

lemma generate_fourth_request:
  assumes up: "limit_throws e1 = None" "limit_throws e2 = None" "limit_throws e3 = None"
      "limit_throws e4 = None"
    and same: "client_ip rq2 = client_ip rq1" "client_ip rq3 = client_ip rq1"
      "client_ip rq4 = client_ip rq1"
    and times: "now e1 \<le> now e2" "now e2 \<le> now e3" "now e3 \<le> now e4" "now e4 < now e1 + window"
    and fresh: "used w (generate_key rq1) (now e1) = 0"
  shows "let a1 = generate_POST P e1 rq1 w;
             a2 = generate_POST P e2 rq2 (next_world a1);
             a3 = generate_POST P e3 rq3 (next_world a2);
             a4 = generate_POST P e4 rq4 (next_world a3)
         in status (reply a1) \<noteq> 429 \<and> status (reply a2) \<noteq> 429 \<and> status (reply a3) \<noteq> 429 \<and>
            status (reply a4) = 429 \<and>
            (\<exists>reset. property (body (reply a4)) ''reset'' = Value (Some (JDate reset)) \<and>
                      now e4 < reset)"
proof -
  define k where "k = generate_key rq1"
  have keys: "generate_key rq1 = k" "generate_key rq2 = k" "generate_key rq3 = k" "generate_key rq4 = k"
    using same by (simp_all add: k_def generate_key_def)
  define a1 where "a1 = generate_POST P e1 rq1 w"
  define a2 where "a2 = generate_POST P e2 rq2 (next_world a1)"
  define a3 where "a3 = generate_POST P e3 rq3 (next_world a2)"
  define a4 where "a4 = generate_POST P e4 rq4 (next_world a3)"
  have inv0: "used w k t = 0" if "now e1 \<le> t" "t \<le> now e4" for t
    using used_later [OF that(1), of w k] fresh by (simp add: keys)
  have "generate_admits e1 rq1 w"
    using up inv0 [of "now e1"] times by (simp add: generate_admits_def tokens_def keys)
  from generate_admitted [OF this, of P]
  have r1: "status (reply a1) \<noteq> 429"
    and w1: "limiter (next_world a1) = limiter (record_admitted w k (now e1))"
    by (simp_all add: a1_def keys)
  have inv1: "used (next_world a1) k t = 1" if "now e1 \<le> t" "t \<le> now e4" for t
    using quota_step [OF inv0 _ _ w1 that] times by simp
  have "generate_admits e2 rq2 (next_world a1)"
    using up inv1 [of "now e2"] times by (simp add: generate_admits_def tokens_def keys)
  from generate_admitted [OF this, of P]
  have r2: "status (reply a2) \<noteq> 429"
    and w2: "limiter (next_world a2) = limiter (record_admitted (next_world a1) k (now e2))"
    by (simp_all add: a2_def keys)
  have inv2: "used (next_world a2) k t = 2" if "now e2 \<le> t" "t \<le> now e4" for t
    using quota_step [OF inv1 _ _ w2 that] times by simp
  have "generate_admits e3 rq3 (next_world a2)"
    using up inv2 [of "now e3"] times by (simp add: generate_admits_def tokens_def keys)
  from generate_admitted [OF this, of P]
  have r3: "status (reply a3) \<noteq> 429"
    and w3: "limiter (next_world a3) = limiter (record_admitted (next_world a2) k (now e3))"
    by (simp_all add: a3_def keys)
  have inv3: "used (next_world a3) k t = 3" if "now e3 \<le> t" "t \<le> now e4" for t
    using quota_step [OF inv2 _ _ w3 that] times by simp
  have "\<not> used (next_world a3) (generate_key rq4) (now e4) < tokens"
    using inv3 [of "now e4"] times by (simp add: tokens_def keys)
  from generate_over_quota [OF up(4) this, of P]
  have r4: "status (reply a4) = 429 \<and>
      (\<exists>reset. property (body (reply a4)) ''reset'' = Value (Some (JDate reset)) \<and> now e4 < reset)"
    by (simp add: a4_def)
  from r1 r2 r3 r4 show ?thesis
    by (simp add: Let_def a1_def a2_def a3_def a4_def)
qed

lemma inspect_fourth_request:
  assumes up: "limit_throws e1 = None" "limit_throws e2 = None" "limit_throws e3 = None"
      "limit_throws e4 = None"
    and same: "client_ip rq2 = client_ip rq1" "client_ip rq3 = client_ip rq1"
      "client_ip rq4 = client_ip rq1"
    and times: "now e1 \<le> now e2" "now e2 \<le> now e3" "now e3 \<le> now e4" "now e4 < now e1 + window"
    and fresh: "used w (inspect_key rq1) (now e1) = 0"
  shows "let a1 = inspect_POST P e1 rq1 w;
             a2 = inspect_POST P e2 rq2 (next_world a1);
             a3 = inspect_POST P e3 rq3 (next_world a2);
             a4 = inspect_POST P e4 rq4 (next_world a3)
         in status (reply a1) \<noteq> 429 \<and> status (reply a2) \<noteq> 429 \<and> status (reply a3) \<noteq> 429 \<and>
            status (reply a4) = 429 \<and>
            (\<exists>reset. property (body (reply a4)) ''reset'' = Value (Some (JDate reset)) \<and>
                      now e4 < reset)"
proof -
  define k where "k = inspect_key rq1"
  have keys: "inspect_key rq1 = k" "inspect_key rq2 = k" "inspect_key rq3 = k" "inspect_key rq4 = k"
    using same by (simp_all add: k_def inspect_key_def)
  define a1 where "a1 = inspect_POST P e1 rq1 w"
  define a2 where "a2 = inspect_POST P e2 rq2 (next_world a1)"
  define a3 where "a3 = inspect_POST P e3 rq3 (next_world a2)"
  define a4 where "a4 = inspect_POST P e4 rq4 (next_world a3)"
  have inv0: "used w k t = 0" if "now e1 \<le> t" "t \<le> now e4" for t
    using used_later [OF that(1), of w k] fresh by (simp add: keys)
  have "inspect_admits e1 rq1 w"
    using up inv0 [of "now e1"] times by (simp add: inspect_admits_def tokens_def keys)
  from inspect_admitted [OF this, of P]
  have r1: "status (reply a1) \<noteq> 429"
    and w1: "limiter (next_world a1) = limiter (record_admitted w k (now e1))"
    by (simp_all add: a1_def keys)
  have inv1: "used (next_world a1) k t = 1" if "now e1 \<le> t" "t \<le> now e4" for t
    using quota_step [OF inv0 _ _ w1 that] times by simp
  have "inspect_admits e2 rq2 (next_world a1)"
    using up inv1 [of "now e2"] times by (simp add: inspect_admits_def tokens_def keys)
  from inspect_admitted [OF this, of P]
  have r2: "status (reply a2) \<noteq> 429"
    and w2: "limiter (next_world a2) = limiter (record_admitted (next_world a1) k (now e2))"
    by (simp_all add: a2_def keys)
  have inv2: "used (next_world a2) k t = 2" if "now e2 \<le> t" "t \<le> now e4" for t
    using quota_step [OF inv1 _ _ w2 that] times by simp
  have "inspect_admits e3 rq3 (next_world a2)"
    using up inv2 [of "now e3"] times by (simp add: inspect_admits_def tokens_def keys)
  from inspect_admitted [OF this, of P]
  have r3: "status (reply a3) \<noteq> 429"
    and w3: "limiter (next_world a3) = limiter (record_admitted (next_world a2) k (now e3))"
    by (simp_all add: a3_def keys)
  have inv3: "used (next_world a3) k t = 3" if "now e3 \<le> t" "t \<le> now e4" for t
    using quota_step [OF inv2 _ _ w3 that] times by simp
  have "\<not> used (next_world a3) (inspect_key rq4) (now e4) < tokens"
    using inv3 [of "now e4"] times by (simp add: tokens_def keys)
  from inspect_over_quota [OF up(4) this, of P]
  have r4: "status (reply a4) = 429 \<and>
      (\<exists>reset. property (body (reply a4)) ''reset'' = Value (Some (JDate reset)) \<and> now e4 < reset)"
    by (simp add: a4_def)
  from r1 r2 r3 r4 show ?thesis
    by (simp add: Let_def a1_def a2_def a3_def a4_def)
qed

lemma quotas_independent:
  "used (next_world (generate_POST P e rq w)) (inspect_key rq') t = used w (inspect_key rq') t \<and>
   used (next_world (inspect_POST P e rq w)) (generate_key rq') t = used w (generate_key rq') t"
  using generate_limiter_frame [of "inspect_key rq'" rq P e w]
    inspect_limiter_frame [of "generate_key rq'" rq P e w] keys_differ [of rq rq'] keys_differ [of rq' rq]
  by (simp add: used_def)

lemmas texts = scenario_text_def inspection_text_def ads_text_def analysis_text_def
  variations_text_def short_goal_text_def truncated_text_def

section \<open>Facts about the examples\<close>

lemma sample_parse_simps [simp]:
  "sample_parse scenario_text = Some scenario_body"
  "sample_parse inspection_text = Some inspection_body"
  "sample_parse ads_text = Some (JObj [(''ads'', ads_value)])"
  "sample_parse analysis_text = Some analysis_value"
  "sample_parse variations_text = Some (JObj [(''variations'', JArr [])])"
  "sample_parse short_goal_text = Some (JObj [(''goal'', JStr ''short'')])"
  "sample_parse truncated_text = None"
  by (simp_all add: sample_parse_def texts)

lemma text_nonempty [simp]: "ads_text \<noteq> []" "analysis_text \<noteq> []" "variations_text \<noteq> []"
  by (simp_all add: texts)

lemma scenario_valid [simp]: "zod_object_parse GenerateAdSchema scenario_body = Inr scenario_validated"
  by (simp add: zod_object_parse_def GenerateAdSchema_def scenario_body_def scenario_validated_def
      issues_of_def output_of_def Let_def)

lemma inspection_valid [simp]:
  "zod_object_parse InspectAdSchema inspection_body = Inr inspection_validated"
  by (simp add: zod_object_parse_def InspectAdSchema_def inspection_body_def inspection_validated_def
      issues_of_def output_of_def Let_def)

lemma client_ip_caller [simp]: "client_ip (caller text) = ''203.0.113.7''"
  by (simp add: client_ip_def caller_def trim_def white_space_def)

lemma body_text_caller [simp]: "body_text (caller text) = text"
  by (simp add: caller_def)

lemma env_at_simps [simp]:
  "now (env_at t a) = t" "development (env_at t a) = False" "error_stack (env_at t a) = None"
  "limit_throws (env_at t a) = None" "kv_get_fails (env_at t a) = False"
  "kv_set_fails (env_at t a) = False" "provider (env_at t a) = a"
  by (simp_all add: env_at_def)

lemma used_fresh_world [simp]: "used fresh_world key t = 0"
  by (simp add: used_def fresh_world_def)

lemma cache_fresh_world [simp]: "cache fresh_world = Map.empty"
  by (simp add: fresh_world_def)

lemma generate_cacheKey_example: "generate_cacheKey [(''a'', ''b'')] = ''gen-ad:eyJhIjoiYiJ9''"
  by (simp add: generate_cacheKey_def JSON_stringify_def quote_def escape_def utf8_def b64_def)

lemma limiter_fresh_world [simp]: "limiter fresh_world key = []"
  by (simp add: fresh_world_def)

lemma first_generation:
  "generate_POST sample_parse (env_at t (Resolves (Some ads_text) (Some 412))) (caller scenario_text)
     fresh_world =
   (\<lparr>status = 200,
     body = JObj [(''ads'', ads_value),
       (''meta'', JObj [(''cache'', JStr ''miss''), (''model'', JStr ''gpt-4''), (''tokens'', JNum 412)])]\<rparr>,
    (record_admitted fresh_world (generate_key (caller scenario_text)) t)
      \<lparr>cache := [generate_cacheKey scenario_validated \<mapsto> (JObj [(''ads'', ads_value)], t + 3600000)]\<rparr>,
    [Ratelimit_Limit (generate_key (caller scenario_text)), Request_Json,
     Kv_Get (generate_cacheKey scenario_validated), OpenAI_Create scenario_validated,
     Kv_Set (generate_cacheKey scenario_validated) (JObj [(''ads'', ads_value)]) 3600])"
  by (simp add: generate_POST_valid [where P = sample_parse] tokens_def finish_def
      generate_resolve_def Let_def cache_lookup_def kv_get_def parse_ads_def
      cache_store_def kv_set_def opt_def record_admitted_def ads_value_def)

lemma lacks_variations [simp]:
  "lacks sample_parse variations_text ''ads''" "lacks sample_parse variations_text ''grade''"
  by (simp_all add: lacks_def)

lemma malformed_generation:
  "generate_POST sample_parse (env_at t (Resolves (Some variations_text) None)) (caller scenario_text)
     fresh_world =
   (\<lparr>status = 500,
     body = JObj [(''error'', JStr ''Received malformed ad data''), (''code'', JStr ''Error'')]\<rparr>,
    record_admitted fresh_world (generate_key (caller scenario_text)) t,
    [Ratelimit_Limit (generate_key (caller scenario_text)), Request_Json,
     Kv_Get (generate_cacheKey scenario_validated), OpenAI_Create scenario_validated])"
  by (simp add: generate_POST_valid [where P = sample_parse] tokens_def finish_def
      generate_resolve_def Let_def cache_lookup_def kv_get_def parse_ads_def generate_catch_def
      record_admitted_def)

lemma malformed_inspection:
  "inspect_POST sample_parse (env_at t (Resolves (Some variations_text) None)) (caller inspection_text)
     fresh_world =
   (\<lparr>status = 500,
     body = JObj [(''error'', JStr ''Received malformed analysis data''), (''code'', JStr ''Error'')]\<rparr>,
    record_admitted fresh_world (inspect_key (caller inspection_text)) t,
    [Ratelimit_Limit (inspect_key (caller inspection_text)), Request_Json,
     Kv_Get (inspect_cacheKey inspection_validated), OpenAI_Create inspection_validated])"
  by (simp add: inspect_POST_valid [where P = sample_parse] tokens_def inspect_finish_def
      inspect_resolve_def Let_def cache_lookup_def kv_get_def parse_analysis_def inspect_catch_def
      record_admitted_def truthy_property_def opt_def)

lemma cache_record_admitted [simp]: "cache (record_admitted w key t) = cache w"
  by (simp add: record_admitted_def)

lemma failed_generation:
  "generate_POST sample_parse (env_at t (Rejects msg)) (caller scenario_text) fresh_world =
   (\<lparr>status = 500,
     body = JObj [(''error'', JStr (''OpenAI request failed: '' @ msg)), (''code'', JStr ''Error'')]\<rparr>,
    record_admitted fresh_world (generate_key (caller scenario_text)) t,
    [Ratelimit_Limit (generate_key (caller scenario_text)), Request_Json,
     Kv_Get (generate_cacheKey scenario_validated), OpenAI_Create scenario_validated])"
  by (simp add: generate_POST_valid [where P = sample_parse] tokens_def finish_def
      generate_resolve_def Let_def cache_lookup_def kv_get_def generate_catch_def)

lemma failed_inspection:
  "inspect_POST sample_parse (env_at t (Rejects msg)) (caller inspection_text) fresh_world =
   (\<lparr>status = 500,
     body = JObj [(''error'', JStr (''Analysis failed: '' @ msg)), (''code'', JStr ''Error'')]\<rparr>,
    record_admitted fresh_world (inspect_key (caller inspection_text)) t,
    [Ratelimit_Limit (inspect_key (caller inspection_text)), Request_Json,
     Kv_Get (inspect_cacheKey inspection_validated), OpenAI_Create inspection_validated])"
  by (simp add: inspect_POST_valid [where P = sample_parse] tokens_def inspect_finish_def
      inspect_resolve_def Let_def cache_lookup_def kv_get_def inspect_catch_def opt_def)

section \<open>Cache hits\<close>

text \<open>
  What each endpoint answers on a hit: the generation endpoint the entry as stored, the
  inspection endpoint the entry with \<open>meta: {cache: "hit"}\<close> added.
\<close>

lemma cache_lookup_record_admitted [simp]:
  "cache_lookup e (record_admitted w key t) k = cache_lookup e w k"
  by (simp add: cache_lookup_def)

lemma generate_hit:
  assumes "generate_admits e rq w" "P (body_text rq) = Some b"
    "zod_object_parse GenerateAdSchema b = Inr v" "truthy (cache_lookup e w (generate_cacheKey v))"
  shows "reply (generate_POST P e rq w) =
           \<lparr>status = 200, body = cache_lookup e w (generate_cacheKey v)\<rparr> \<and>
         calls (generate_POST P e rq w) =
           [Ratelimit_Limit (generate_key rq), Request_Json, Kv_Get (generate_cacheKey v)]"
  using assms
  by (simp add: generate_admits_def generate_POST_valid [where P = P] reply_finish calls_finish
      generate_resolve_hit)

lemma inspect_hit:
  assumes "inspect_admits e rq w" "P (body_text rq) = Some b"
    "zod_object_parse InspectAdSchema b = Inr v" "truthy (cache_lookup e w (inspect_cacheKey v))"
  shows "reply (inspect_POST P e rq w) =
           \<lparr>status = 200,
            body = JObj (assign (spread (cache_lookup e w (inspect_cacheKey v))) ''meta''
                           (JObj [(''cache'', JStr ''hit'')]))\<rparr> \<and>
         calls (inspect_POST P e rq w) =
           [Ratelimit_Limit (inspect_key rq), Request_Json, Kv_Get (inspect_cacheKey v)]"
  using assms
  by (simp add: inspect_admits_def inspect_POST_valid [where P = P] reply_inspect_finish
      calls_inspect_finish inspect_resolve_hit)

lemma first_inspection:
  "inspect_POST sample_parse (env_at t (Resolves (Some analysis_text) None)) (caller inspection_text)
     fresh_world =
   (\<lparr>status = 200,
     body = JObj [(''analysis'', analysis_value),
       (''meta'', JObj [(''cache'', JStr ''miss''), (''model'', JStr ''gpt-4''), (''analyzedAt'', JDate t)])]\<rparr>,
    (record_admitted fresh_world (inspect_key (caller inspection_text)) t)
      \<lparr>cache := [inspect_cacheKey inspection_validated \<mapsto>
                   (JObj [(''analysis'', analysis_value)], t + 86400000)]\<rparr>,
    [Ratelimit_Limit (inspect_key (caller inspection_text)), Request_Json,
     Kv_Get (inspect_cacheKey inspection_validated), OpenAI_Create inspection_validated,
     Kv_Set (inspect_cacheKey inspection_validated) (JObj [(''analysis'', analysis_value)]) 86400])"
  by (simp add: inspect_POST_valid [where P = sample_parse] tokens_def inspect_finish_def
      inspect_resolve_def Let_def cache_lookup_def kv_get_def parse_analysis_def truthy_property_def
      cache_store_def kv_set_def opt_def record_admitted_def analysis_value_def)

lemma inspect_hit_is_marked:
  "let first = inspect_POST sample_parse (env_at 1000 (Resolves (Some analysis_text) None))
                 (caller inspection_text) fresh_world;
       second = inspect_POST sample_parse (env_at 2000 (Resolves (Some analysis_text) None))
                  (caller inspection_text) (next_world first)
   in reply second =
        \<lparr>status = 200,
         body = JObj [(''analysis'', analysis_value), (''meta'', JObj [(''cache'', JStr ''hit'')])]\<rparr> \<and>
      calls second = [Ratelimit_Limit (inspect_key (caller inspection_text)), Request_Json,
                      Kv_Get (inspect_cacheKey inspection_validated)]"
  by (simp add: Let_def reply_def next_world_def calls_def first_inspection
      inspect_POST_valid [where P = sample_parse] tokens_def inspect_finish_def used_def
      record_admitted_def in_window_def window_def
      inspect_resolve_hit cache_lookup_def kv_get_def)

section \<open>The claims\<close>

text \<open>
  In the statements, \<open>P\<close> is \<^verbatim>\<open>JSON.parse\<close>, \<open>e\<close> what the request meets, \<open>rq\<close> the
  request and \<open>w\<close> the state of the store before it.
\<close>

text \<open>
  Claim C1 (the same body twice within the TTL gives \<open>cache: "miss"\<close> then \<open>cache: "hit"\<close>,
  with the same payload, and a hit does not call the provider). On the generation
  endpoint the second response is the stored entry as it is, \<^verbatim>\<open>NextResponse.json(cached)\<close>:
  the payload is the same and the provider is not called, but the response has no \<open>meta\<close>
  property, so nothing marks it as a hit. The scenario of the spec, sent twice one second
  apart to an empty store:
\<close>

theorem generate_hit_is_not_marked:
  "let first = generate_POST sample_parse (env_at 1000 (Resolves (Some ads_text) (Some 412)))
                 (caller scenario_text) fresh_world;
       second = generate_POST sample_parse (env_at 2000 (Resolves (Some ads_text) (Some 412)))
                  (caller scenario_text) (next_world first)
   in status (reply first) = 200 \<and>
      property (body (reply first)) ''ads'' = Value (Some ads_value) \<and>
      property (body (reply first)) ''meta'' =
        Value (Some (JObj [(''cache'', JStr ''miss''), (''model'', JStr ''gpt-4''), (''tokens'', JNum 412)])) \<and>
      reply second = \<lparr>status = 200, body = JObj [(''ads'', ads_value)]\<rparr> \<and>
      property (body (reply second)) ''meta'' = Value None \<and>
      calls second = [Ratelimit_Limit (generate_key (caller scenario_text)), Request_Json,
                      Kv_Get (generate_cacheKey scenario_validated)]"
  by (simp add: Let_def reply_def next_world_def calls_def first_generation
      generate_POST_valid [where P = sample_parse] tokens_def finish_def used_def
      record_admitted_def in_window_def window_def
      generate_resolve_hit cache_lookup_def kv_get_def)

text \<open>
  Claim C2 (the first 3 requests of a client in a 24-hour window are admitted, the 4th
  gets 429 with a reset time in the future, and the two endpoints count separately).
  For a client with no admitted request in the window, four requests within 24 hours of
  the first, whatever their bodies: the first three are not answered 429, the fourth is,
  and its \<open>reset\<close> is later than the request. The same holds on the inspection endpoint,
  and a request to one endpoint leaves the units used on the other as they were.
\<close>

theorem quota_is_three_per_window_per_endpoint:
  assumes "limit_throws e1 = None" "limit_throws e2 = None" "limit_throws e3 = None"
      "limit_throws e4 = None"
    and "client_ip rq2 = client_ip rq1" "client_ip rq3 = client_ip rq1" "client_ip rq4 = client_ip rq1"
    and "now e1 \<le> now e2" "now e2 \<le> now e3" "now e3 \<le> now e4" "now e4 < now e1 + window"
    and "used w (generate_key rq1) (now e1) = 0" "used w (inspect_key rq1) (now e1) = 0"
  shows "(let a1 = generate_POST P e1 rq1 w;
              a2 = generate_POST P e2 rq2 (next_world a1);
              a3 = generate_POST P e3 rq3 (next_world a2);
              a4 = generate_POST P e4 rq4 (next_world a3)
          in status (reply a1) \<noteq> 429 \<and> status (reply a2) \<noteq> 429 \<and> status (reply a3) \<noteq> 429 \<and>
             status (reply a4) = 429 \<and>
             (\<exists>reset. property (body (reply a4)) ''reset'' = Value (Some (JDate reset)) \<and>
                       now e4 < reset)) \<and>
         (let a1 = inspect_POST P e1 rq1 w;
              a2 = inspect_POST P e2 rq2 (next_world a1);
              a3 = inspect_POST P e3 rq3 (next_world a2);
              a4 = inspect_POST P e4 rq4 (next_world a3)
          in status (reply a1) \<noteq> 429 \<and> status (reply a2) \<noteq> 429 \<and> status (reply a3) \<noteq> 429 \<and>
             status (reply a4) = 429 \<and>
             (\<exists>reset. property (body (reply a4)) ''reset'' = Value (Some (JDate reset)) \<and>
                       now e4 < reset)) \<and>
         used (next_world (generate_POST P e rq w')) (inspect_key rq') t = used w' (inspect_key rq') t \<and>
         used (next_world (inspect_POST P e rq w')) (generate_key rq') t = used w' (generate_key rq') t"
  using generate_fourth_request [OF assms(1-12), of P] inspect_fourth_request [OF assms(1-11) assms(13), of P]
    quotas_independent [of P e rq w' rq' t]
  by blast

theorem quota_is_three_per_window_per_endpoint_witness:
  "(let a1 = generate_POST sample_parse (env_at 1000 (Rejects [])) (caller scenario_text) fresh_world;
        a2 = generate_POST sample_parse (env_at 2000 (Rejects [])) (caller short_goal_text) (next_world a1);
        a3 = generate_POST sample_parse (env_at 3000 (Rejects [])) (caller truncated_text) (next_world a2);
        a4 = generate_POST sample_parse (env_at 86400999 (Rejects [])) (caller scenario_text) (next_world a3)
    in status (reply a1) \<noteq> 429 \<and> status (reply a2) \<noteq> 429 \<and> status (reply a3) \<noteq> 429 \<and>
       status (reply a4) = 429 \<and>
       (\<exists>reset. property (body (reply a4)) ''reset'' = Value (Some (JDate reset)) \<and> 86400999 < reset)) \<and>
   (let a1 = inspect_POST sample_parse (env_at 1000 (Rejects [])) (caller scenario_text) fresh_world;
        a2 = inspect_POST sample_parse (env_at 2000 (Rejects [])) (caller short_goal_text) (next_world a1);
        a3 = inspect_POST sample_parse (env_at 3000 (Rejects [])) (caller truncated_text) (next_world a2);
        a4 = inspect_POST sample_parse (env_at 86400999 (Rejects [])) (caller scenario_text) (next_world a3)
    in status (reply a1) \<noteq> 429 \<and> status (reply a2) \<noteq> 429 \<and> status (reply a3) \<noteq> 429 \<and>
       status (reply a4) = 429 \<and>
       (\<exists>reset. property (body (reply a4)) ''reset'' = Value (Some (JDate reset)) \<and> 86400999 < reset))"
  using quota_is_three_per_window_per_endpoint
    [where ?e1.0 = "env_at 1000 (Rejects [])" and ?e2.0 = "env_at 2000 (Rejects [])"
       and ?e3.0 = "env_at 3000 (Rejects [])" and ?e4.0 = "env_at 86400999 (Rejects [])"
       and ?rq1.0 = "caller scenario_text" and ?rq2.0 = "caller short_goal_text"
       and ?rq3.0 = "caller truncated_text" and ?rq4.0 = "caller scenario_text"
       and w = fresh_world and P = sample_parse]
  by (simp add: window_def)

text \<open>
  Claim C3 (an admitted request whose body misses a required field, or breaks a length
  bound or an enumeration, gets 400 with an issue whose path names the field). For a body
  that is a JSON object and a field of the schema that offends it, the status is 400 and
  an entry of \<open>issues\<close> has the field as its \<open>path\<close>.
\<close>

theorem offending_field_is_named_in_400:
  "(generate_admits e rq w \<and> P (body_text rq) = Some (JObj ps) \<and> (f, t) \<in> set GenerateAdSchema \<and>
    offends t (map_of ps f) \<longrightarrow>
      status (reply (generate_POST P e rq w)) = 400 \<and>
      names_field f (body (reply (generate_POST P e rq w)))) \<and>
   (inspect_admits e rq w \<and> P (body_text rq) = Some (JObj ps) \<and> (f, t) \<in> set InspectAdSchema \<and>
    offends t (map_of ps f) \<longrightarrow>
      status (reply (inspect_POST P e rq w)) = 400 \<and>
      names_field f (body (reply (inspect_POST P e rq w))))"
  using generate_offending_field [of e rq w P ps f t] inspect_offending_field [of e rq w P ps f t]
  by blast

theorem offending_field_is_named_in_400_witness:
  "offends (ZString [Min 10, Max 100]) (Some (JStr ''short'')) \<and>
   status (reply (generate_POST sample_parse (env_at 1000 (Rejects [])) (caller short_goal_text)
             fresh_world)) = 400 \<and>
   names_field ''goal'' (body (reply (generate_POST sample_parse (env_at 1000 (Rejects []))
             (caller short_goal_text) fresh_world))) \<and>
   offends (ZEnum [''facebook'', ''instagram'', ''google-search'', ''google-display'']) None \<and>
   status (reply (inspect_POST sample_parse (env_at 1000 (Rejects [])) (caller short_goal_text)
             fresh_world)) = 400 \<and>
   names_field ''adType'' (body (reply (inspect_POST sample_parse (env_at 1000 (Rejects []))
             (caller short_goal_text) fresh_world)))"
  using offending_field_is_named_in_400
    [of "env_at 1000 (Rejects [])" "caller short_goal_text" fresh_world sample_parse
       "[(''goal'', JStr ''short'')]" "''goal''" "ZString [Min 10, Max 100]"]
    offending_field_is_named_in_400
    [of "env_at 1000 (Rejects [])" "caller short_goal_text" fresh_world sample_parse
       "[(''goal'', JStr ''short'')]" "''adType''"
       "ZEnum [''facebook'', ''instagram'', ''google-search'', ''google-display'']"]
  by (simp add: generate_admits_def inspect_admits_def tokens_def GenerateAdSchema_def
      InspectAdSchema_def)

text \<open>
  Claim C4 (a request whose body fails a bound or an enumeration check stops at
  validation). Whenever the schema rejects the parsed body, the handler makes no
  \<^verbatim>\<open>kv.get\<close>, no \<^verbatim>\<open>kv.set\<close> and no provider call (so no cache key reaches the store),
  and the cache is left as it was.
\<close>

theorem invalid_body_stops_at_validation:
  "(P (body_text rq) = Some b \<and> zod_object_parse GenerateAdSchema b = Inl issues \<longrightarrow>
      cache (next_world (generate_POST P e rq w)) = cache w \<and>
      \<not> list_ex reads_cache (calls (generate_POST P e rq w)) \<and>
      \<not> list_ex writes_cache (calls (generate_POST P e rq w)) \<and>
      \<not> list_ex calls_provider (calls (generate_POST P e rq w))) \<and>
   (P (body_text rq) = Some b \<and> zod_object_parse InspectAdSchema b = Inl issues \<longrightarrow>
      cache (next_world (inspect_POST P e rq w)) = cache w \<and>
      \<not> list_ex reads_cache (calls (inspect_POST P e rq w)) \<and>
      \<not> list_ex writes_cache (calls (inspect_POST P e rq w)) \<and>
      \<not> list_ex calls_provider (calls (inspect_POST P e rq w)))"
  using generate_invalid_stops [of P rq b issues e w] inspect_invalid_stops [of P rq b issues e w]
  by blast

theorem invalid_body_stops_at_validation_witness:
  "(\<exists>issues. zod_object_parse GenerateAdSchema (JObj [(''goal'', JStr ''short'')]) = Inl issues) \<and>
   cache (next_world (generate_POST sample_parse (env_at 1000 (Resolves (Some ads_text) None))
            (caller short_goal_text) fresh_world)) = Map.empty \<and>
   \<not> list_ex reads_cache (calls (generate_POST sample_parse (env_at 1000 (Resolves (Some ads_text) None))
            (caller short_goal_text) fresh_world)) \<and>
   \<not> list_ex writes_cache (calls (generate_POST sample_parse (env_at 1000 (Resolves (Some ads_text) None))
            (caller short_goal_text) fresh_world)) \<and>
   \<not> list_ex calls_provider (calls (generate_POST sample_parse (env_at 1000 (Resolves (Some ads_text) None))
            (caller short_goal_text) fresh_world)) \<and>
   cache (next_world (inspect_POST sample_parse (env_at 1000 (Resolves (Some ads_text) None))
            (caller short_goal_text) fresh_world)) = Map.empty \<and>
   \<not> list_ex reads_cache (calls (inspect_POST sample_parse (env_at 1000 (Resolves (Some ads_text) None))
            (caller short_goal_text) fresh_world)) \<and>
   \<not> list_ex writes_cache (calls (inspect_POST sample_parse (env_at 1000 (Resolves (Some ads_text) None))
            (caller short_goal_text) fresh_world)) \<and>
   \<not> list_ex calls_provider (calls (inspect_POST sample_parse (env_at 1000 (Resolves (Some ads_text) None))
            (caller short_goal_text) fresh_world))"
proof -
  obtain gs where g: "zod_object_parse GenerateAdSchema (JObj [(''goal'', JStr ''short'')]) = Inl gs"
    by (simp add: zod_object_parse_def GenerateAdSchema_def issues_of_def Let_def)
  obtain hs where i: "zod_object_parse InspectAdSchema (JObj [(''goal'', JStr ''short'')]) = Inl hs"
    by (simp add: zod_object_parse_def InspectAdSchema_def issues_of_def Let_def)
  from g i show ?thesis
    using invalid_body_stops_at_validation
      [of sample_parse "caller short_goal_text" "JObj [(''goal'', JStr ''short'')]" gs
         "env_at 1000 (Resolves (Some ads_text) None)" fresh_world]
      invalid_body_stops_at_validation
      [of sample_parse "caller short_goal_text" "JObj [(''goal'', JStr ''short'')]" hs
         "env_at 1000 (Resolves (Some ads_text) None)" fresh_world]
    by simp
qed

text \<open>
  Claim C5 (a provider answer that is not JSON, or lacks \<open>ads\<close>, or lacks \<open>grade\<close> or
  \<open>suggestions\<close>, is never cached and gives a 500). Whenever the provider was called and
  answered such a text, the status is 500, no \<^verbatim>\<open>kv.set\<close> is made and the cache is left
  as it was; for a text that is not empty the error is the malformed-data error.
\<close>

theorem malformed_provider_answer_is_500_and_not_cached:
  "(provider e = Resolves (Some content) usage \<and> lacks P content ''ads'' \<and>
    list_ex calls_provider (calls (generate_POST P e rq w)) \<longrightarrow>
      status (reply (generate_POST P e rq w)) = 500 \<and>
      \<not> list_ex writes_cache (calls (generate_POST P e rq w)) \<and>
      cache (next_world (generate_POST P e rq w)) = cache w \<and>
      (content \<noteq> [] \<longrightarrow> body (reply (generate_POST P e rq w)) =
         JObj [(''error'', JStr ''Received malformed ad data''), (''code'', JStr ''Error'')])) \<and>
   (provider e = Resolves (Some content) usage \<and>
    (lacks P content ''grade'' \<or> lacks P content ''suggestions'') \<and>
    list_ex calls_provider (calls (inspect_POST P e rq w)) \<longrightarrow>
      status (reply (inspect_POST P e rq w)) = 500 \<and>
      \<not> list_ex writes_cache (calls (inspect_POST P e rq w)) \<and>
      cache (next_world (inspect_POST P e rq w)) = cache w \<and>
      (content \<noteq> [] \<longrightarrow> property (body (reply (inspect_POST P e rq w))) ''error'' =
         Value (Some (JStr ''Received malformed analysis data''))))"
  using generate_malformed [of e content usage P rq w] inspect_malformed [of e content usage P rq w]
  by blast

theorem malformed_provider_answer_is_500_and_not_cached_witness:
  "lacks sample_parse variations_text ''ads'' \<and>
   list_ex calls_provider (calls (generate_POST sample_parse
      (env_at 1000 (Resolves (Some variations_text) None)) (caller scenario_text) fresh_world)) \<and>
   status (reply (generate_POST sample_parse
      (env_at 1000 (Resolves (Some variations_text) None)) (caller scenario_text) fresh_world)) = 500 \<and>
   \<not> list_ex writes_cache (calls (generate_POST sample_parse
      (env_at 1000 (Resolves (Some variations_text) None)) (caller scenario_text) fresh_world)) \<and>
   cache (next_world (generate_POST sample_parse
      (env_at 1000 (Resolves (Some variations_text) None)) (caller scenario_text) fresh_world)) = Map.empty \<and>
   lacks sample_parse variations_text ''grade'' \<and>
   list_ex calls_provider (calls (inspect_POST sample_parse
      (env_at 1000 (Resolves (Some variations_text) None)) (caller inspection_text) fresh_world)) \<and>
   status (reply (inspect_POST sample_parse
      (env_at 1000 (Resolves (Some variations_text) None)) (caller inspection_text) fresh_world)) = 500 \<and>
   \<not> list_ex writes_cache (calls (inspect_POST sample_parse
      (env_at 1000 (Resolves (Some variations_text) None)) (caller inspection_text) fresh_world)) \<and>
   cache (next_world (inspect_POST sample_parse
      (env_at 1000 (Resolves (Some variations_text) None)) (caller inspection_text) fresh_world)) = Map.empty"
proof -
  have g: "list_ex calls_provider (calls (generate_POST sample_parse
      (env_at 1000 (Resolves (Some variations_text) None)) (caller scenario_text) fresh_world))"
    by (simp add: malformed_generation calls_def)
  have i: "list_ex calls_provider (calls (inspect_POST sample_parse
      (env_at 1000 (Resolves (Some variations_text) None)) (caller inspection_text) fresh_world))"
    by (simp add: malformed_inspection calls_def)
  from g i show ?thesis
    using malformed_provider_answer_is_500_and_not_cached
      [of "env_at 1000 (Resolves (Some variations_text) None)" variations_text None sample_parse
         "caller scenario_text" fresh_world]
      malformed_provider_answer_is_500_and_not_cached
      [of "env_at 1000 (Resolves (Some variations_text) None)" variations_text None sample_parse
         "caller inspection_text" fresh_world]
    by simp
qed

text \<open>
  Claim C6 (failures of the cache store are best-effort). A request that meets a failing
  \<^verbatim>\<open>kv.get\<close> gets the response, and makes the calls, of the same request on an empty
  cache, and a valid admitted one goes on to the provider; a request that meets a failing
  \<^verbatim>\<open>kv.set\<close> gets the response it gets when the write succeeds.
\<close>

theorem cache_failures_are_best_effort:
  "reply (generate_POST P (e\<lparr>kv_get_fails := True\<rparr>) rq w) =
     reply (generate_POST P (e\<lparr>kv_get_fails := False\<rparr>) rq (w\<lparr>cache := Map.empty\<rparr>)) \<and>
   calls (generate_POST P (e\<lparr>kv_get_fails := True\<rparr>) rq w) =
     calls (generate_POST P (e\<lparr>kv_get_fails := False\<rparr>) rq (w\<lparr>cache := Map.empty\<rparr>)) \<and>
   reply (inspect_POST P (e\<lparr>kv_get_fails := True\<rparr>) rq w) =
     reply (inspect_POST P (e\<lparr>kv_get_fails := False\<rparr>) rq (w\<lparr>cache := Map.empty\<rparr>)) \<and>
   calls (inspect_POST P (e\<lparr>kv_get_fails := True\<rparr>) rq w) =
     calls (inspect_POST P (e\<lparr>kv_get_fails := False\<rparr>) rq (w\<lparr>cache := Map.empty\<rparr>)) \<and>
   (kv_get_fails e \<and> generate_admits e rq w \<and> P (body_text rq) = Some b \<and>
    zod_object_parse GenerateAdSchema b = Inr v \<longrightarrow>
      list_ex calls_provider (calls (generate_POST P e rq w))) \<and>
   (kv_get_fails e \<and> inspect_admits e rq w \<and> P (body_text rq) = Some b \<and>
    zod_object_parse InspectAdSchema b = Inr v \<longrightarrow>
      list_ex calls_provider (calls (inspect_POST P e rq w))) \<and>
   reply (generate_POST P (e\<lparr>kv_set_fails := True\<rparr>) rq w) =
     reply (generate_POST P (e\<lparr>kv_set_fails := False\<rparr>) rq w) \<and>
   reply (inspect_POST P (e\<lparr>kv_set_fails := True\<rparr>) rq w) =
     reply (inspect_POST P (e\<lparr>kv_set_fails := False\<rparr>) rq w)"
  using generate_read_failure [of P e rq w] inspect_read_failure [of P e rq w]
    generate_write_failure [of P e rq w] inspect_write_failure [of P e rq w]
    generate_read_failure_reaches_provider [of e rq w P b v]
    inspect_read_failure_reaches_provider [of e rq w P b v]
  by blast

theorem cache_failures_are_best_effort_witness:
  "generate_admits ((env_at 2000 (Resolves (Some ads_text) (Some 412)))\<lparr>kv_get_fails := True\<rparr>)
     (caller scenario_text)
     (next_world (generate_POST sample_parse (env_at 1000 (Resolves (Some ads_text) (Some 412)))
        (caller scenario_text) fresh_world)) \<and>
   list_ex calls_provider (calls (generate_POST sample_parse
     ((env_at 2000 (Resolves (Some ads_text) (Some 412)))\<lparr>kv_get_fails := True\<rparr>)
     (caller scenario_text)
     (next_world (generate_POST sample_parse (env_at 1000 (Resolves (Some ads_text) (Some 412)))
        (caller scenario_text) fresh_world)))) \<and>
   inspect_admits ((env_at 2000 (Resolves (Some analysis_text) None))\<lparr>kv_get_fails := True\<rparr>)
     (caller inspection_text) fresh_world \<and>
   list_ex calls_provider (calls (inspect_POST sample_parse
     ((env_at 2000 (Resolves (Some analysis_text) None))\<lparr>kv_get_fails := True\<rparr>)
     (caller inspection_text) fresh_world))"
proof -
  let ?e = "(env_at 2000 (Resolves (Some ads_text) (Some 412)))\<lparr>kv_get_fails := True\<rparr>"
  let ?w = "next_world (generate_POST sample_parse (env_at 1000 (Resolves (Some ads_text) (Some 412)))
        (caller scenario_text) fresh_world)"
  let ?e' = "(env_at 2000 (Resolves (Some analysis_text) None))\<lparr>kv_get_fails := True\<rparr>"
  have g: "generate_admits ?e (caller scenario_text) ?w"
    by (simp add: generate_admits_def tokens_def first_generation next_world_def used_def
        record_admitted_def)
  have i: "inspect_admits ?e' (caller inspection_text) fresh_world"
    by (simp add: inspect_admits_def tokens_def)
  have k: "kv_get_fails ?e" "kv_get_fails ?e'"
    by simp_all
  have p: "sample_parse (body_text (caller scenario_text)) = Some scenario_body"
    "sample_parse (body_text (caller inspection_text)) = Some inspection_body"
    by simp_all
  have "list_ex calls_provider (calls (generate_POST sample_parse ?e (caller scenario_text) ?w))"
    using g k p scenario_valid cache_failures_are_best_effort
      [of sample_parse ?e "caller scenario_text" ?w scenario_body scenario_validated]
    by blast
  moreover
  have "list_ex calls_provider (calls (inspect_POST sample_parse ?e' (caller inspection_text) fresh_world))"
    using i k p inspection_valid cache_failures_are_best_effort
      [of sample_parse ?e' "caller inspection_text" fresh_world inspection_body inspection_validated]
    by blast
  ultimately show ?thesis using g i by blast
qed

text \<open>
  Claim C7 (the cache key is a function of the validated request, and a generation key
  is never an inspection key). Equal validated requests have equal keys in each
  namespace, and no key of one namespace is a key of the other.
\<close>

theorem cacheKey_is_deterministic_and_namespaced:
  "(v = v' \<longrightarrow> generate_cacheKey v = generate_cacheKey v' \<and> inspect_cacheKey v = inspect_cacheKey v') \<and>
   generate_cacheKey v \<noteq> inspect_cacheKey u"
  by (simp add: generate_cacheKey_def inspect_cacheKey_def)

theorem cacheKey_is_deterministic_and_namespaced_witness:
  "generate_cacheKey scenario_validated = generate_cacheKey scenario_validated \<and>
   inspect_cacheKey scenario_validated = inspect_cacheKey scenario_validated \<and>
   generate_cacheKey scenario_validated \<noteq> inspect_cacheKey scenario_validated"
  using cacheKey_is_deterministic_and_namespaced
    [of scenario_validated scenario_validated scenario_validated]
  by simp

text \<open>
  Claim C8 (a body that is not JSON is rejected with an error distinct from a schema
  violation, which carries field path and message). The first half holds and the second
  does not: the response is a 500 whose body has a message and a code and no \<open>issues\<close>.
  At a truncated body:
\<close>

theorem unparseable_body_error_has_no_field_path:
  "status (reply (generate_POST sample_parse (env_at 1000 (Rejects [])) (caller truncated_text)
      fresh_world)) = 500 \<and>
   body (reply (generate_POST sample_parse (env_at 1000 (Rejects [])) (caller truncated_text)
      fresh_world)) = JObj [(''error'', JStr ''Invalid JSON payload''), (''code'', JStr ''Error'')] \<and>
   \<not> carries_field_paths (body (reply (generate_POST sample_parse (env_at 1000 (Rejects []))
      (caller truncated_text) fresh_world)))"
  by (simp add: generate_POST_bad_json tokens_def reply_def carries_field_paths_def)

text \<open>
  Claim C8, amended: an admitted request whose body is not JSON gets status 500 with the
  message \<open>Invalid JSON payload\<close> and the code \<open>Error\<close> (and the stack, on the inspection
  endpoint in development); a schema violation gets status 400; and the body of the 500
  carries no field path.
\<close>

theorem unparseable_body_is_a_500_with_message_and_code:
  "(generate_admits e rq w \<and> P (body_text rq) = None \<longrightarrow>
      reply (generate_POST P e rq w) =
        \<lparr>status = 500,
         body = JObj [(''error'', JStr ''Invalid JSON payload''), (''code'', JStr ''Error'')]\<rparr>) \<and>
   (inspect_admits e rq w \<and> P (body_text rq) = None \<longrightarrow>
      reply (inspect_POST P e rq w) =
        \<lparr>status = 500,
         body = JObj ([(''error'', JStr ''Invalid JSON payload''), (''code'', JStr ''Error'')]
                  @ opt ''stack'' (if development e then map_option JStr (error_stack e) else None))\<rparr>) \<and>
   (generate_admits e rq w \<and> P (body_text rq) = Some b \<and>
    zod_object_parse GenerateAdSchema b = Inl issues \<longrightarrow>
      status (reply (generate_POST P e rq w)) = 400) \<and>
   (inspect_admits e rq w \<and> P (body_text rq) = Some b \<and>
    zod_object_parse InspectAdSchema b = Inl issues \<longrightarrow>
      status (reply (inspect_POST P e rq w)) = 400) \<and>
   \<not> carries_field_paths (JObj ([(''error'', JStr ''Invalid JSON payload''), (''code'', JStr ''Error'')]
                             @ opt ''stack'' s))"
  using generate_unparseable [of e rq w P] inspect_unparseable [of e rq w P]
    not_carries_error_code [of "JStr ''Invalid JSON payload''" "JStr ''Error''" s]
  by (auto simp add: generate_admits_def inspect_admits_def generate_POST_invalid [where P = P]
      inspect_POST_invalid [where P = P] reply_def)

theorem unparseable_body_is_a_500_with_message_and_code_witness:
  "generate_admits (env_at 1000 (Rejects [])) (caller truncated_text) fresh_world \<and>
   sample_parse truncated_text = None \<and>
   reply (generate_POST sample_parse (env_at 1000 (Rejects [])) (caller truncated_text) fresh_world) =
     \<lparr>status = 500,
      body = JObj [(''error'', JStr ''Invalid JSON payload''), (''code'', JStr ''Error'')]\<rparr> \<and>
   reply (inspect_POST sample_parse (env_at 1000 (Rejects [])) (caller truncated_text) fresh_world) =
     \<lparr>status = 500,
      body = JObj [(''error'', JStr ''Invalid JSON payload''), (''code'', JStr ''Error'')]\<rparr> \<and>
   status (reply (generate_POST sample_parse (env_at 1000 (Rejects [])) (caller short_goal_text)
      fresh_world)) = 400 \<and>
   status (reply (inspect_POST sample_parse (env_at 1000 (Rejects [])) (caller short_goal_text)
      fresh_world)) = 400"
proof -
  obtain gs where g: "zod_object_parse GenerateAdSchema (JObj [(''goal'', JStr ''short'')]) = Inl gs"
    by (simp add: zod_object_parse_def GenerateAdSchema_def issues_of_def Let_def)
  obtain hs where i: "zod_object_parse InspectAdSchema (JObj [(''goal'', JStr ''short'')]) = Inl hs"
    by (simp add: zod_object_parse_def InspectAdSchema_def issues_of_def Let_def)
  from g i show ?thesis
    using unparseable_body_is_a_500_with_message_and_code
      [of "env_at 1000 (Rejects [])" "caller truncated_text" fresh_world sample_parse]
      unparseable_body_is_a_500_with_message_and_code
      [of "env_at 1000 (Rejects [])" "caller short_goal_text" fresh_world sample_parse
         "JObj [(''goal'', JStr ''short'')]" gs]
      unparseable_body_is_a_500_with_message_and_code
      [of "env_at 1000 (Rejects [])" "caller short_goal_text" fresh_world sample_parse
         "JObj [(''goal'', JStr ''short'')]" hs]
    by (simp add: generate_admits_def inspect_admits_def tokens_def opt_def)
qed

text \<open>
  Claim C9 (for every provider or cache-store failure the body of the 500 holds only a
  generic message and an internal error code, and in production no stack). The message is
  not generic: the \<^verbatim>\<open>catch\<close> clauses send \<^verbatim>\<open>error.message\<close> and \<^verbatim>\<open>error.name\<close> as they
  are, and the error of a failed provider call is built from the provider's own message.
  Two provider failures get two different bodies, each with the provider's text, and a
  failure of the limiter's store reaches the caller with the store's message and name:
\<close>

theorem server_error_message_is_not_generic:
  "body (reply (generate_POST sample_parse (env_at 1000 (Rejects ''401 Incorrect API key provided''))
      (caller scenario_text) fresh_world)) =
     JObj [(''error'', JStr ''OpenAI request failed: 401 Incorrect API key provided''),
           (''code'', JStr ''Error'')] \<and>
   body (reply (generate_POST sample_parse (env_at 1000 (Rejects ''Request timed out.''))
      (caller scenario_text) fresh_world)) =
     JObj [(''error'', JStr ''OpenAI request failed: Request timed out.''), (''code'', JStr ''Error'')] \<and>
   body (reply (generate_POST sample_parse (env_at 1000 (Rejects ''401 Incorrect API key provided''))
      (caller scenario_text) fresh_world)) \<noteq>
   body (reply (generate_POST sample_parse (env_at 1000 (Rejects ''Request timed out.''))
      (caller scenario_text) fresh_world)) \<and>
   body (reply (inspect_POST sample_parse
      ((env_at 1000 (Rejects []))
         \<lparr>limit_throws := Some (Thrown_Error ''UpstashError'' ''Command failed: ERR store unreachable'')\<rparr>)
      (caller inspection_text) fresh_world)) =
     JObj [(''error'', JStr ''Command failed: ERR store unreachable''), (''code'', JStr ''UpstashError'')]"
  by (simp add: failed_generation reply_def inspect_POST_limiter_fails inspect_catch_def opt_def)

text \<open>
  Claim C9, amended: the body of a 500 holds only \<open>error\<close>, the message of the error that
  was caught, and \<open>code\<close>, its name, and outside development no stack. For a provider
  call that fails the message is \<open>OpenAI request failed: \<close> or \<open>Analysis failed: \<close>
  followed by the provider's own message, and the code is \<open>Error\<close>; for a failure of the
  limiter's store they are the message and the name of the error the limiter threw; for
  a thrown value that is not an Error they are \<open>Generation failed\<close> or \<open>Analysis failed\<close>
  and \<open>UNKNOWN_ERROR\<close>. (A failing \<^verbatim>\<open>kv.get\<close> or \<^verbatim>\<open>kv.set\<close> gives no 500 at all: claim
  C6.)
\<close>

theorem server_error_body_is_error_message_and_name:
  "(status (reply (generate_POST P e rq w)) = 500 \<longrightarrow>
      (\<exists>m c. body (reply (generate_POST P e rq w)) = JObj [(''error'', JStr m), (''code'', JStr c)])) \<and>
   (\<not> development e \<and> status (reply (inspect_POST P e rq w)) = 500 \<longrightarrow>
      (\<exists>m c. body (reply (inspect_POST P e rq w)) = JObj [(''error'', JStr m), (''code'', JStr c)])) \<and>
   (provider e = Rejects msg \<and> list_ex calls_provider (calls (generate_POST P e rq w)) \<longrightarrow>
      reply (generate_POST P e rq w) =
        \<lparr>status = 500,
         body = JObj [(''error'', JStr (''OpenAI request failed: '' @ msg)), (''code'', JStr ''Error'')]\<rparr>) \<and>
   (provider e = Rejects msg \<and> list_ex calls_provider (calls (inspect_POST P e rq w)) \<longrightarrow>
      status (reply (inspect_POST P e rq w)) = 500 \<and>
      (\<not> development e \<longrightarrow>
         body (reply (inspect_POST P e rq w)) =
           JObj [(''error'', JStr (''Analysis failed: '' @ msg)), (''code'', JStr ''Error'')])) \<and>
   (limit_throws e = Some t \<longrightarrow>
      status (reply (generate_POST P e rq w)) = 500 \<and> status (reply (inspect_POST P e rq w)) = 500) \<and>
   (limit_throws e = Some (Thrown_Error name m) \<longrightarrow>
      body (reply (generate_POST P e rq w)) = JObj [(''error'', JStr m), (''code'', JStr name)] \<and>
      (\<not> development e \<longrightarrow>
         body (reply (inspect_POST P e rq w)) = JObj [(''error'', JStr m), (''code'', JStr name)])) \<and>
   (limit_throws e = Some Not_Error \<longrightarrow>
      body (reply (generate_POST P e rq w)) =
        JObj [(''error'', JStr ''Generation failed''), (''code'', JStr ''UNKNOWN_ERROR'')] \<and>
      body (reply (inspect_POST P e rq w)) =
        JObj [(''error'', JStr ''Analysis failed''), (''code'', JStr ''UNKNOWN_ERROR'')])"
proof -
  have thrown: "status (reply (generate_POST P e rq w)) = 500 \<and>
      status (reply (inspect_POST P e rq w)) = 500" if "limit_throws e = Some t"
    using that generate_catch_other [of t]
    by (auto simp add: generate_POST_limiter_fails inspect_POST_limiter_fails reply_def)
  have named: "body (reply (generate_POST P e rq w)) = JObj [(''error'', JStr m), (''code'', JStr name)] \<and>
      (\<not> development e \<longrightarrow>
         body (reply (inspect_POST P e rq w)) = JObj [(''error'', JStr m), (''code'', JStr name)])"
    if "limit_throws e = Some (Thrown_Error name m)"
    using that
    by (simp add: generate_POST_limiter_fails inspect_POST_limiter_fails reply_def generate_catch_def
        inspect_catch_def opt_def)
  have other: "body (reply (generate_POST P e rq w)) =
        JObj [(''error'', JStr ''Generation failed''), (''code'', JStr ''UNKNOWN_ERROR'')] \<and>
      body (reply (inspect_POST P e rq w)) =
        JObj [(''error'', JStr ''Analysis failed''), (''code'', JStr ''UNKNOWN_ERROR'')]"
    if "limit_throws e = Some Not_Error"
    using that
    by (simp add: generate_POST_limiter_fails inspect_POST_limiter_fails reply_def generate_catch_def
        inspect_catch_def)
  have rejected: "status (reply (inspect_POST P e rq w)) = 500 \<and>
      (\<not> development e \<longrightarrow>
         body (reply (inspect_POST P e rq w)) =
           JObj [(''error'', JStr (''Analysis failed: '' @ msg)), (''code'', JStr ''Error'')])"
    if "provider e = Rejects msg" "list_ex calls_provider (calls (inspect_POST P e rq w))"
    using inspect_provider_failure [OF that]
    by (simp add: inspect_catch_def opt_def)
  from thrown named other rejected show ?thesis
    using generate_500_body [of P e rq w] inspect_500_body [of P e rq w]
      generate_provider_failure [of e msg P rq w]
    by blast
qed

theorem server_error_body_is_error_message_and_name_witness:
  "list_ex calls_provider (calls (generate_POST sample_parse (env_at 1000 (Rejects ''timeout''))
      (caller scenario_text) fresh_world)) \<and>
   reply (generate_POST sample_parse (env_at 1000 (Rejects ''timeout''))
      (caller scenario_text) fresh_world) =
     \<lparr>status = 500,
      body = JObj [(''error'', JStr ''OpenAI request failed: timeout''), (''code'', JStr ''Error'')]\<rparr> \<and>
   list_ex calls_provider (calls (inspect_POST sample_parse (env_at 1000 (Rejects ''timeout''))
      (caller inspection_text) fresh_world)) \<and>
   status (reply (inspect_POST sample_parse (env_at 1000 (Rejects ''timeout''))
      (caller inspection_text) fresh_world)) = 500 \<and>
   body (reply (inspect_POST sample_parse (env_at 1000 (Rejects ''timeout''))
      (caller inspection_text) fresh_world)) =
     JObj [(''error'', JStr ''Analysis failed: timeout''), (''code'', JStr ''Error'')] \<and>
   body (reply (generate_POST sample_parse
      ((env_at 1000 (Rejects ''timeout''))\<lparr>limit_throws := Some (Thrown_Error ''UpstashError'' ''down'')\<rparr>)
      (caller scenario_text) fresh_world)) =
     JObj [(''error'', JStr ''down''), (''code'', JStr ''UpstashError'')] \<and>
   body (reply (inspect_POST sample_parse
      ((env_at 1000 (Rejects ''timeout''))\<lparr>limit_throws := Some Not_Error\<rparr>)
      (caller inspection_text) fresh_world)) =
     JObj [(''error'', JStr ''Analysis failed''), (''code'', JStr ''UNKNOWN_ERROR'')]"
proof -
  let ?e = "env_at 1000 (Rejects ''timeout'')"
  let ?e1 = "?e\<lparr>limit_throws := Some (Thrown_Error ''UpstashError'' ''down'')\<rparr>"
  let ?e2 = "?e\<lparr>limit_throws := Some Not_Error\<rparr>"
  have g: "list_ex calls_provider (calls (generate_POST sample_parse ?e (caller scenario_text) fresh_world))"
    by (simp add: failed_generation calls_def)
  have i: "list_ex calls_provider (calls (inspect_POST sample_parse ?e (caller inspection_text) fresh_world))"
    by (simp add: failed_inspection calls_def)
  have p: "provider ?e = Rejects ''timeout''" "\<not> development ?e"
    "limit_throws ?e1 = Some (Thrown_Error ''UpstashError'' ''down'')"
    "limit_throws ?e2 = Some Not_Error"
    by simp_all
  note a = server_error_body_is_error_message_and_name
    [of sample_parse ?e "caller scenario_text" fresh_world "''timeout''"]
  note b = server_error_body_is_error_message_and_name
    [of sample_parse ?e "caller inspection_text" fresh_world "''timeout''"]
  note c = server_error_body_is_error_message_and_name
    [of sample_parse ?e1 "caller scenario_text" fresh_world _ _ "''UpstashError''" "''down''"]
  note d = server_error_body_is_error_message_and_name
    [of sample_parse ?e2 "caller inspection_text" fresh_world]
  from g p a have "reply (generate_POST sample_parse ?e (caller scenario_text) fresh_world) =
      \<lparr>status = 500,
       body = JObj [(''error'', JStr (''OpenAI request failed: '' @ ''timeout'')), (''code'', JStr ''Error'')]\<rparr>"
    by blast
  then have "reply (generate_POST sample_parse ?e (caller scenario_text) fresh_world) =
      \<lparr>status = 500,
       body = JObj [(''error'', JStr ''OpenAI request failed: timeout''), (''code'', JStr ''Error'')]\<rparr>"
    by simp
  moreover from i p b
  have "status (reply (inspect_POST sample_parse ?e (caller inspection_text) fresh_world)) = 500 \<and>
      body (reply (inspect_POST sample_parse ?e (caller inspection_text) fresh_world)) =
        JObj [(''error'', JStr (''Analysis failed: '' @ ''timeout'')), (''code'', JStr ''Error'')]"
    by blast
  then have "status (reply (inspect_POST sample_parse ?e (caller inspection_text) fresh_world)) = 500 \<and>
      body (reply (inspect_POST sample_parse ?e (caller inspection_text) fresh_world)) =
        JObj [(''error'', JStr ''Analysis failed: timeout''), (''code'', JStr ''Error'')]"
    by simp
  moreover from p c
  have "body (reply (generate_POST sample_parse ?e1 (caller scenario_text) fresh_world)) =
      JObj [(''error'', JStr ''down''), (''code'', JStr ''UpstashError'')]"
    by blast
  moreover from p d
  have "body (reply (inspect_POST sample_parse ?e2 (caller inspection_text) fresh_world)) =
      JObj [(''error'', JStr ''Analysis failed''), (''code'', JStr ''UNKNOWN_ERROR'')]"
    by blast
  ultimately show ?thesis using g i by blast
qed

text \<open>
  Claim C10 (the limiter is asked before the body is read, so a request that then fails
  parsing or validation has used a unit of the quota). The first call of every request
  is the limiter's; an admitted request whose body is not JSON or breaks the schema makes
  that call and reads the body, is answered 400 or 500, and leaves one more unit of its
  key in use.
\<close>

theorem limit_runs_first_and_failed_requests_consume_quota:
  "take 1 (calls (generate_POST P e rq w)) = [Ratelimit_Limit (generate_key rq)] \<and>
   take 1 (calls (inspect_POST P e rq w)) = [Ratelimit_Limit (inspect_key rq)] \<and>
   (generate_admits e rq w \<and>
    (P (body_text rq) = None \<or>
     (\<exists>b issues. P (body_text rq) = Some b \<and> zod_object_parse GenerateAdSchema b = Inl issues)) \<longrightarrow>
      calls (generate_POST P e rq w) = [Ratelimit_Limit (generate_key rq), Request_Json] \<and>
      status (reply (generate_POST P e rq w)) \<in> {400, 500} \<and>
      used (next_world (generate_POST P e rq w)) (generate_key rq) (now e) =
        Suc (used w (generate_key rq) (now e))) \<and>
   (inspect_admits e rq w \<and>
    (P (body_text rq) = None \<or>
     (\<exists>b issues. P (body_text rq) = Some b \<and> zod_object_parse InspectAdSchema b = Inl issues)) \<longrightarrow>
      calls (inspect_POST P e rq w) = [Ratelimit_Limit (inspect_key rq), Request_Json] \<and>
      status (reply (inspect_POST P e rq w)) \<in> {400, 500} \<and>
      used (next_world (inspect_POST P e rq w)) (inspect_key rq) (now e) =
        Suc (used w (inspect_key rq) (now e)))"
  using generate_limit_first [of P e rq w] inspect_limit_first [of P e rq w]
    generate_failed_request_consumes [of e rq w P] inspect_failed_request_consumes [of e rq w P]
  by blast

theorem limit_runs_first_and_failed_requests_consume_quota_witness:
  "generate_admits (env_at 1000 (Rejects [])) (caller truncated_text) fresh_world \<and>
   sample_parse (body_text (caller truncated_text)) = None \<and>
   status (reply (generate_POST sample_parse (env_at 1000 (Rejects [])) (caller truncated_text)
      fresh_world)) \<in> {400, 500} \<and>
   used (next_world (generate_POST sample_parse (env_at 1000 (Rejects [])) (caller truncated_text)
      fresh_world)) (generate_key (caller truncated_text)) 1000 = 1 \<and>
   inspect_admits (env_at 1000 (Rejects [])) (caller truncated_text) fresh_world \<and>
   status (reply (inspect_POST sample_parse (env_at 1000 (Rejects [])) (caller truncated_text)
      fresh_world)) \<in> {400, 500} \<and>
   used (next_world (inspect_POST sample_parse (env_at 1000 (Rejects [])) (caller truncated_text)
      fresh_world)) (inspect_key (caller truncated_text)) 1000 = 1"
proof -
  have a: "generate_admits (env_at 1000 (Rejects [])) (caller truncated_text) fresh_world"
    "inspect_admits (env_at 1000 (Rejects [])) (caller truncated_text) fresh_world"
    by (simp_all add: generate_admits_def inspect_admits_def tokens_def)
  have p: "sample_parse (body_text (caller truncated_text)) = None"
    by simp
  from a p show ?thesis
    using limit_runs_first_and_failed_requests_consume_quota
      [of sample_parse "env_at 1000 (Rejects [])" "caller truncated_text" fresh_world]
    by simp
qed

end
